theory Spec2Isabelle
  imports
    Complex_Main
    "HOL-Library.AList"
    "HOL-Library.Char_ord"
    "HOL-Library.List_Lexorder"
begin

section \<open>AutoFlow: workflow validation and permission inference\<close>

text \<open>
  A shallow embedding of \<^verbatim>\<open>src/core/validator.ts\<close>, \<^verbatim>\<open>src/core/permission-mappings.ts\<close>
  and \<^verbatim>\<open>src/core/pack-aggregator.ts\<close>.  Objects are records whose optional
  properties are \<open>option\<close> fields, a thrown exception is the \<open>Inl\<close> branch of a sum,
  the validator instance (its configuration and its \<^verbatim>\<open>nextIssueId\<close> counter) is passed
  in and returned, and a \<^verbatim>\<open>Promise\<close> is a value of its own type.  Strings are ordered
  by character code, lexicographically, which is the order of \<^verbatim>\<open>Array.prototype.sort()\<close>
  without a comparator.
\<close>

subsection \<open>The run-time values the code relies on\<close>

datatype error = TypeError string | SyntaxError string

fun error_message :: "error \<Rightarrow> string" where
  "error_message (TypeError m) = m"
| "error_message (SyntaxError m) = m"

text \<open>
  An \<^verbatim>\<open>async\<close> method returns a promise: fulfilled with the returned value, rejected
  with the exception its body threw.
\<close>

datatype 'a promise = Fulfilled 'a | Rejected error

text \<open>
  \<^verbatim>\<open>xs.push(...p)\<close> asks \<^verbatim>\<open>p\<close> for its iterator.  A promise has none, so spreading
  a promise throws a \<^verbatim>\<open>TypeError\<close> whatever the promise holds (the text of the message
  depends on the engine).
\<close>

definition spread_promise :: "'a list promise \<Rightarrow> error + 'a list" where
  "spread_promise p = Inl (TypeError ''nodeIssues is not iterable'')"

text \<open>
  The three tables of \<^verbatim>\<open>permission-mappings.ts\<close> and the rule table are object
  literals, so they inherit from \<^verbatim>\<open>Object.prototype\<close>: \<^verbatim>\<open>k in obj\<close> and \<^verbatim>\<open>obj[k]\<close>
  also find the members of the prototype, whose values are functions (and, for
  \<^verbatim>\<open>__proto__\<close>, the prototype object itself), never a value of the table.
\<close>

definition Object_prototype :: "string list" where
  "Object_prototype =
    [''constructor'', ''__defineGetter__'', ''__defineSetter__'', ''hasOwnProperty'',
     ''__lookupGetter__'', ''__lookupSetter__'', ''isPrototypeOf'', ''propertyIsEnumerable'',
     ''toString'', ''valueOf'', ''__proto__'', ''toLocaleString'']"

datatype 'a property = Own 'a | Inherited string | Undefined

definition get_property :: "(string \<times> 'a) list \<Rightarrow> string \<Rightarrow> 'a property" where
  "get_property obj k =
    (case map_of obj k of
       Some v \<Rightarrow> Own v
     | None \<Rightarrow> if k \<in> set Object_prototype then Inherited k else Undefined)"

definition has_property :: "(string \<times> 'a) list \<Rightarrow> string \<Rightarrow> bool" where
  "has_property obj k = (get_property obj k \<noteq> Undefined)"

text \<open>
  A \<^verbatim>\<open>Set<string>\<close> keeps its members in insertion order; \<^verbatim>\<open>add\<close> of a member
  changes nothing.  \<^verbatim>\<open>Array.from(s).sort()\<close> is \<^const>\<open>sort\<close> on that list.
\<close>

definition Set_add :: "string list \<Rightarrow> string \<Rightarrow> string list" where
  "Set_add s x = (if x \<in> set s then s else s @ [x])"

definition Set_add_all :: "string list \<Rightarrow> string list \<Rightarrow> string list" where
  "Set_add_all s xs = foldl Set_add s xs"

subsection \<open>permission-mappings.ts\<close>

definition ACTION_PERMISSION_MAPPINGS :: "(string \<times> string list) list" where
  "ACTION_PERMISSION_MAPPINGS =
    [(''send_message'', [''SEND_MESSAGES'', ''VIEW_CHANNEL'']),
     (''edit_message'', [''SEND_MESSAGES'', ''VIEW_CHANNEL'']),
     (''send_direct_message'', []),
     (''delete_message'', [''MANAGE_MESSAGES'', ''VIEW_CHANNEL'']),
     (''log_event'', [''SEND_MESSAGES'', ''VIEW_CHANNEL'']),
     (''add_role'', [''MANAGE_ROLES'']),
     (''remove_role'', [''MANAGE_ROLES'']),
     (''change_nickname'', [''MANAGE_NICKNAMES'']),
     (''kick_user'', [''KICK_MEMBERS'']),
     (''ban_user'', [''BAN_MEMBERS'']),
     (''unban_user'', [''BAN_MEMBERS'']),
     (''mute_user'', [''MODERATE_MEMBERS'']),
     (''unmute_user'', [''MODERATE_MEMBERS'']),
     (''create_channel'', [''MANAGE_CHANNELS'']),
     (''delete_channel'', [''MANAGE_CHANNELS'']),
     (''create_category'', [''MANAGE_CHANNELS'']),
     (''modify_channel'', [''MANAGE_CHANNELS'']),
     (''add_reaction'', [''ADD_REACTIONS'', ''VIEW_CHANNEL'']),
     (''remove_reaction'', [''MANAGE_MESSAGES'', ''VIEW_CHANNEL'']),
     (''pin_message'', [''MANAGE_MESSAGES'', ''VIEW_CHANNEL'']),
     (''unpin_message'', [''MANAGE_MESSAGES'', ''VIEW_CHANNEL'']),
     (''variable_update'', []),
     (''database_insert'', []),
     (''database_query'', []),
     (''webhook_send'', [''MANAGE_WEBHOOKS'']),
     (''http_request'', []),
     (''create_invite'', [''CREATE_INSTANT_INVITE''])]"

definition TRIGGER_PERMISSION_MAPPINGS :: "(string \<times> string list) list" where
  "TRIGGER_PERMISSION_MAPPINGS =
    [(''user_join'', []),
     (''user_leave'', []),
     (''user_ban'', []),
     (''user_kick'', []),
     (''user_update'', []),
     (''send_message'', [''VIEW_CHANNEL'']),
     (''message_delete'', [''VIEW_CHANNEL'']),
     (''message_edit'', [''VIEW_CHANNEL'']),
     (''channel_create'', []),
     (''channel_delete'', []),
     (''role_create'', []),
     (''role_delete'', []),
     (''role_add'', []),
     (''role_remove'', []),
     (''reaction_add'', [''VIEW_CHANNEL'']),
     (''reaction_remove'', [''VIEW_CHANNEL'']),
     (''voice_channel_join'', [''VIEW_CHANNEL'', ''CONNECT'']),
     (''voice_channel_leave'', [''VIEW_CHANNEL'', ''CONNECT'']),
     (''server_update'', []),
     (''slash_command'', []),
     (''prefixed_command'', [])]"

datatype permission_severity = Safe | Moderate | Dangerous

definition PERMISSION_SEVERITY :: "(string \<times> permission_severity) list" where
  "PERMISSION_SEVERITY =
    [(''ADMINISTRATOR'', Dangerous),
     (''BAN_MEMBERS'', Dangerous),
     (''KICK_MEMBERS'', Dangerous),
     (''MANAGE_GUILD'', Dangerous),
     (''MANAGE_ROLES'', Dangerous),
     (''MANAGE_WEBHOOKS'', Dangerous),
     (''MODERATE_MEMBERS'', Dangerous),
     (''MANAGE_CHANNELS'', Moderate),
     (''MANAGE_MESSAGES'', Moderate),
     (''MANAGE_NICKNAMES'', Moderate),
     (''MANAGE_THREADS'', Moderate),
     (''MANAGE_EVENTS'', Moderate),
     (''MANAGE_EMOJIS_AND_STICKERS'', Moderate),
     (''SEND_MESSAGES'', Safe),
     (''VIEW_CHANNEL'', Safe),
     (''ADD_REACTIONS'', Safe),
     (''CREATE_INSTANT_INVITE'', Safe),
     (''READ_MESSAGE_HISTORY'', Safe),
     (''SEND_MESSAGES_IN_THREADS'', Safe),
     (''EMBED_LINKS'', Safe),
     (''ATTACH_FILES'', Safe),
     (''USE_EXTERNAL_EMOJIS'', Safe),
     (''USE_EXTERNAL_STICKERS'', Safe),
     (''CONNECT'', Safe),
     (''SPEAK'', Safe),
     (''STREAM'', Safe),
     (''USE_VAD'', Safe),
     (''CHANGE_NICKNAME'', Safe),
     (''USE_APPLICATION_COMMANDS'', Safe)]"

definition hasActionPermissionMapping :: "string \<Rightarrow> bool" where
  "hasActionPermissionMapping a = has_property ACTION_PERMISSION_MAPPINGS a"

definition hasTriggerPermissionMapping :: "string \<Rightarrow> bool" where
  "hasTriggerPermissionMapping t = has_property TRIGGER_PERMISSION_MAPPINGS t"

text \<open>
  \<^verbatim>\<open>PERMISSION_SEVERITY[permission] || 'safe'\<close>: only \<^verbatim>\<open>undefined\<close> is replaced by
  \<^verbatim>\<open>'safe'\<close>; every own value is a non-empty string and every inherited member is an
  object, and both are truthy.
\<close>

definition getPermissionSeverity :: "string \<Rightarrow> permission_severity property" where
  "getPermissionSeverity permission =
    (case get_property PERMISSION_SEVERITY permission of
       Undefined \<Rightarrow> Own Safe
     | v \<Rightarrow> v)"

subsection \<open>validator.ts: the data model\<close>

text \<open>
  Only the properties the engine reads or writes are kept.  \<^verbatim>\<open>Date.now()\<close> readings
  (\<^verbatim>\<open>timestamp\<close>, \<^verbatim>\<open>analysisTime\<close>) are left out: no check looks at them.
  A node's \<^verbatim>\<open>type\<close> is the string it is at run time, of which the code only asks whether
  it is \<^verbatim>\<open>'trigger'\<close> or \<^verbatim>\<open>'action'\<close>; a \<^verbatim>\<open>weight\<close> is an integer.
\<close>

record WorkflowTrigger =
  trigger_type :: string
  event :: "string option"
  command :: "string option"
  prefix :: "string option"
  schedule :: "string option"

record WorkflowNode =
  node_id :: string
  node_type :: string
  action :: "string option"
  connections :: "string list option"
  weight :: "int option"
  node_permissions :: "string list option"

record VariableDefinition =
  var_name :: string
  var_type :: string
  var_scope :: string

text \<open>\<^verbatim>\<open>Partial<AutomaterWorkflow>\<close>: every property may be absent.\<close>

record AutomaterWorkflow =
  wf_id :: "string option"
  wf_name :: "string option"
  wf_version :: "string option"
  wf_trigger :: "WorkflowTrigger option"
  wf_nodes :: "WorkflowNode list option"
  wf_permissions :: "string list option"
  wf_variables :: "VariableDefinition list option"

subsection \<open>Permission inference, read-only\<close>

text \<open>
  \<^verbatim>\<open>TABLE[key].forEach(perm => requiredPermissions.add(perm))\<close>, after \<^verbatim>\<open>key in TABLE\<close>
  held.  For an inherited key the value is a function, which has no \<^verbatim>\<open>forEach\<close>.
\<close>

definition add_mapped ::
  "(string \<times> string list) list \<Rightarrow> string \<Rightarrow> string list \<Rightarrow> error + string list" where
  "add_mapped table k required =
    (case get_property table k of
       Own perms \<Rightarrow> Inr (Set_add_all required perms)
     | _ \<Rightarrow> Inl (TypeError ''forEach is not a function''))"

definition trigger_permissions :: "AutomaterWorkflow \<Rightarrow> string list \<Rightarrow> error + string list" where
  "trigger_permissions workflow required =
    (case wf_trigger workflow of
       None \<Rightarrow> Inr required
     | Some t \<Rightarrow>
        (case event t of
           None \<Rightarrow> Inr required
         | Some triggerEvent \<Rightarrow>
            if triggerEvent \<noteq> [] \<and> hasTriggerPermissionMapping triggerEvent
            then add_mapped TRIGGER_PERMISSION_MAPPINGS triggerEvent required
            else Inr required))"

fun node_permissions_loop :: "WorkflowNode list \<Rightarrow> string list \<Rightarrow> error + string list" where
  "node_permissions_loop [] required = Inr required"
| "node_permissions_loop (node # nodes) required =
    (case action node of
       Some a \<Rightarrow>
        if node_type node = ''action'' \<and> a \<noteq> [] \<and> hasActionPermissionMapping a
        then (case add_mapped ACTION_PERMISSION_MAPPINGS a required of
                Inl e \<Rightarrow> Inl e
              | Inr required' \<Rightarrow> node_permissions_loop nodes required')
        else node_permissions_loop nodes required
     | None \<Rightarrow> node_permissions_loop nodes required)"

text \<open>\<^verbatim>\<open>for (const node of workflow.nodes)\<close> throws when \<^verbatim>\<open>nodes\<close> is absent.\<close>

definition detectRequiredPermissions :: "AutomaterWorkflow \<Rightarrow> error + string list" where
  "detectRequiredPermissions workflow =
    (case trigger_permissions workflow [] of
       Inl e \<Rightarrow> Inl e
     | Inr required \<Rightarrow>
        (case wf_nodes workflow of
           None \<Rightarrow> Inl (TypeError ''workflow.nodes is not iterable'')
         | Some nodes \<Rightarrow>
            (case node_permissions_loop nodes required of
               Inl e \<Rightarrow> Inl e
             | Inr required' \<Rightarrow> Inr (sort required'))))"

subsection \<open>pack-aggregator.ts\<close>

record AutomaterPack =
  pack_id :: string
  pack_name :: string
  pack_version :: string
  automations :: "AutomaterWorkflow list option"

fun aggregate_loop :: "AutomaterWorkflow list \<Rightarrow> string list \<Rightarrow> error + string list" where
  "aggregate_loop [] allPermissions = Inr allPermissions"
| "aggregate_loop (automation # rest) allPermissions =
    (case detectRequiredPermissions automation of
       Inl e \<Rightarrow> Inl e
     | Inr workflowPermissions \<Rightarrow>
        aggregate_loop rest (Set_add_all allPermissions workflowPermissions))"

text \<open>\<^verbatim>\<open>pack.automations || []\<close>\<close>

definition pack_automations :: "AutomaterPack \<Rightarrow> AutomaterWorkflow list" where
  "pack_automations pack = (case automations pack of None \<Rightarrow> [] | Some ws \<Rightarrow> ws)"

definition aggregatePackPermissions :: "AutomaterPack \<Rightarrow> error + string list" where
  "aggregatePackPermissions pack =
    (case aggregate_loop (pack_automations pack) [] of
       Inl e \<Rightarrow> Inl e
     | Inr allPermissions \<Rightarrow> Inr (sort allPermissions))"

text \<open>
  The \<^verbatim>\<open>switch\<close> of \<^verbatim>\<open>calculatePackPermissionWeight\<close> has no \<^verbatim>\<open>default\<close>: a value
  that is none of the three strings adds nothing.
\<close>

fun severity_points :: "permission_severity property \<Rightarrow> nat" where
  "severity_points (Own Dangerous) = 10"
| "severity_points (Own Moderate) = 3"
| "severity_points (Own Safe) = 1"
| "severity_points _ = 0"

definition permission_weight :: "string list \<Rightarrow> nat" where
  "permission_weight permissions =
    foldl (\<lambda>weight perm. weight + severity_points (getPermissionSeverity perm)) 0 permissions"

definition calculatePackPermissionWeight :: "AutomaterPack \<Rightarrow> error + nat" where
  "calculatePackPermissionWeight pack =
    (case aggregatePackPermissions pack of
       Inl e \<Rightarrow> Inl e
     | Inr permissions \<Rightarrow> Inr (permission_weight permissions))"

definition getDangerousPermissions :: "AutomaterPack \<Rightarrow> error + string list" where
  "getDangerousPermissions pack =
    (case aggregatePackPermissions pack of
       Inl e \<Rightarrow> Inl e
     | Inr permissions \<Rightarrow>
        Inr (filter (\<lambda>perm. getPermissionSeverity perm = Own Dangerous) permissions))"

subsection \<open>validator.ts: configuration, catalog and issues\<close>

text \<open>
  The levels of \<^verbatim>\<open>LintConfig.rules\<close> are \<^verbatim>\<open>'off' | 'warn' | 'error'\<close>; the default table
  also holds \<^verbatim>\<open>'info'\<close>.
\<close>

datatype rule_level = RuleOff | RuleWarn | RuleError | RuleInfo

record RateLimits =
  maxWorkflowWeight :: int
  maxNodeWeight :: int
  warnThreshold :: rat

record Naming =
  workflowIdPattern :: string
  nodeIdPattern :: string
  variableNamePattern :: string

record Settings =
  rateLimits :: "RateLimits option"
  naming :: "Naming option"

record LintConfig =
  rules :: "(string \<times> rule_level) list"
  settings :: "Settings option"

definition DEFAULT_rules :: "(string \<times> rule_level) list" where
  "DEFAULT_rules =
    [(''schema/required-fields'', RuleError),
     (''schema/field-types'', RuleError),
     (''schema/semver'', RuleError),
     (''schema/enum-values'', RuleError),
     (''graph/missing-nodes'', RuleError),
     (''graph/entry-points'', RuleError),
     (''graph/unreachable-nodes'', RuleWarn),
     (''graph/infinite-loops'', RuleError),
     (''graph/dead-ends'', RuleWarn),
     (''variable/undefined-reference'', RuleError),
     (''variable/invalid-interpolation'', RuleError),
     (''variable/scope-mismatch'', RuleWarn),
     (''variable/naming-convention'', RuleWarn),
     (''trigger/unknown-event'', RuleError),
     (''trigger/invalid-command'', RuleError),
     (''action/unknown-type'', RuleError),
     (''action/missing-params'', RuleError),
     (''security/missing-permissions'', RuleError),
     (''security/excessive-permissions'', RuleWarn),
     (''security/hardcoded-secrets'', RuleError),
     (''security/pii-exposure'', RuleWarn),
     (''perf/missing-weight'', RuleWarn),
     (''perf/high-weight'', RuleWarn),
     (''perf/deep-nesting'', RuleWarn),
     (''perf/large-workflow'', RuleInfo),
     (''style/naming-convention'', RuleWarn),
     (''style/description-required'', RuleWarn),
     (''style/icon-color-consistency'', RuleInfo),
     (''style/deprecated-features'', RuleWarn)]"

definition DEFAULT_settings :: Settings where
  "DEFAULT_settings =
    \<lparr>rateLimits = Some \<lparr>maxWorkflowWeight = 1000, maxNodeWeight = 100, warnThreshold = 8 / 10\<rparr>,
     naming = Some \<lparr>workflowIdPattern = ''^automation-[A-Za-z0-9]{15}$'',
                    nodeIdPattern = ''^[a-zA-Z][a-zA-Z0-9_-]*$'',
                    variableNamePattern = ''^[a-zA-Z][a-zA-Z0-9_]*$''\<rparr>\<rparr>"

definition DEFAULT_LINT_CONFIG :: LintConfig where
  "DEFAULT_LINT_CONFIG = \<lparr>rules = DEFAULT_rules, settings = Some DEFAULT_settings\<rparr>"

text \<open>The validator instance: its merged configuration and its issue counter.\<close>

record AutoFlowValidator =
  config :: LintConfig
  nextIssueId :: nat

text \<open>
  The constructor, from a \<^verbatim>\<open>Partial<LintConfig>\<close>: rules merge entry by entry, the two
  groups of settings are replaced whole.
\<close>

record PartialLintConfig =
  partial_rules :: "(string \<times> rule_level) list option"
  partial_settings :: "Settings option"

definition merge_settings :: "Settings \<Rightarrow> Settings option \<Rightarrow> Settings" where
  "merge_settings d s =
    (case s of
       None \<Rightarrow> d
     | Some s' \<Rightarrow>
        \<lparr>rateLimits = (case rateLimits s' of None \<Rightarrow> rateLimits d | Some r \<Rightarrow> Some r),
         naming = (case naming s' of None \<Rightarrow> naming d | Some n \<Rightarrow> Some n)\<rparr>)"

definition new_AutoFlowValidator :: "PartialLintConfig \<Rightarrow> AutoFlowValidator" where
  "new_AutoFlowValidator c =
    \<lparr>config =
       \<lparr>rules = AList.merge DEFAULT_rules (case partial_rules c of None \<Rightarrow> [] | Some r \<Rightarrow> r),
        settings = Some (merge_settings DEFAULT_settings (partial_settings c))\<rparr>,
     nextIssueId = 1\<rparr>"

text \<open>\<^verbatim>\<open>config && config !== 'off'\<close>, on \<^verbatim>\<open>this.config.rules[ruleId]\<close>.\<close>

definition isRuleEnabled :: "AutoFlowValidator \<Rightarrow> string \<Rightarrow> bool" where
  "isRuleEnabled V ruleId =
    (case get_property (rules (config V)) ruleId of
       Own level \<Rightarrow> level \<noteq> RuleOff
     | Inherited _ \<Rightarrow> True
     | Undefined \<Rightarrow> False)"

datatype issue_family = AUT | SYS

datatype issue_severity = SevInfo | SevWarn | SevError | SevCritical

datatype error_code = C3310 | C3311 | C3312 | C3313 | C4120 | C4121 | C5510 | C5511

record CatalogEntry =
  cat_family :: issue_family
  cat_key :: string
  cat_severity :: issue_severity
  cat_message :: string
  cat_remediation :: string

fun ERROR_CATALOG :: "error_code \<Rightarrow> CatalogEntry" where
  "ERROR_CATALOG C3310 =
    \<lparr>cat_family = AUT, cat_key = ''AUT_WORKFLOW_UNREACHABLE_NODES'', cat_severity = SevWarn,
     cat_message = ''Workflow contains unreachable nodes'',
     cat_remediation = ''Remove unreachable nodes or add connections to make them reachable''\<rparr>"
| "ERROR_CATALOG C3311 =
    \<lparr>cat_family = AUT, cat_key = ''AUT_NODE_MISSING_CONNECTIONS'', cat_severity = SevError,
     cat_message = ''Node is missing required connections'',
     cat_remediation = ''Add connections array to node or connect to valid target nodes''\<rparr>"
| "ERROR_CATALOG C3312 =
    \<lparr>cat_family = AUT, cat_key = ''AUT_VARIABLE_INVALID_INTERPOLATION'', cat_severity = SevError,
     cat_message = ''Invalid variable interpolation syntax'',
     cat_remediation = ''Use correct syntax: {variable.name} or {member.displayName}''\<rparr>"
| "ERROR_CATALOG C3313 =
    \<lparr>cat_family = AUT, cat_key = ''AUT_ICON_NOT_APPROVED'', cat_severity = SevWarn,
     cat_message = ''Icon is not in the approved icon catalog'',
     cat_remediation = ''Choose from approved icons in Icon System PRD''\<rparr>"
| "ERROR_CATALOG C4120 =
    \<lparr>cat_family = AUT, cat_key = ''AUT_RATE_LIMIT_HIGH_WEIGHT'', cat_severity = SevWarn,
     cat_message = ''Workflow weight may cause rate limiting'',
     cat_remediation = ''Reduce node weight or optimize workflow to use fewer resources''\<rparr>"
| "ERROR_CATALOG C4121 =
    \<lparr>cat_family = AUT, cat_key = ''AUT_NODE_MISSING_WEIGHT'', cat_severity = SevWarn,
     cat_message = ''Action node missing rate limit weight'',
     cat_remediation = ''Add weight property to action node for accurate rate limiting''\<rparr>"
| "ERROR_CATALOG C5510 =
    \<lparr>cat_family = SYS, cat_key = ''SYS_WORKFLOW_PARSE_ERROR'', cat_severity = SevError,
     cat_message = ''Unable to parse workflow file'',
     cat_remediation = ''Check JSON syntax and workflow structure''\<rparr>"
| "ERROR_CATALOG C5511 =
    \<lparr>cat_family = SYS, cat_key = ''SYS_SCHEMA_VALIDATION_FAILED'', cat_severity = SevError,
     cat_message = ''Workflow schema validation failed'',
     cat_remediation = ''Fix schema violations listed in validation errors''\<rparr>"

fun code_number :: "error_code \<Rightarrow> string" where
  "code_number C3310 = ''3310''"
| "code_number C3311 = ''3311''"
| "code_number C3312 = ''3312''"
| "code_number C3313 = ''3313''"
| "code_number C4120 = ''4120''"
| "code_number C4121 = ''4121''"
| "code_number C5510 = ''5510''"
| "code_number C5511 = ''5511''"

fun family_name :: "issue_family \<Rightarrow> string" where
  "family_name AUT = ''AUT''"
| "family_name SYS = ''SYS''"

text \<open>
  Numbers in template strings: decimal digits, a minus sign for a negative integer.  This
  is what JavaScript prints for an integer below \<open>10\<^sup>2\<^sup>1\<close> in magnitude; from there on
  it prints exponent form, which \<open>show_int\<close> does not follow.  The texts built with it
  are message texts only.
\<close>

fun show_nat :: "nat \<Rightarrow> string" where
  "show_nat n =
    (if n < 10 then [''0123456789'' ! n]
     else show_nat (n div 10) @ [''0123456789'' ! (n mod 10)])"

declare show_nat.simps [simp del]

definition show_int :: "int \<Rightarrow> string" where
  "show_int i = (if i < 0 then CHR ''-'' # show_nat (nat (- i)) else show_nat (nat i))"

record Location =
  loc_nodeId :: "string option"
  loc_edgeId :: "string option"
  loc_path :: "string option"

record LintIssue =
  issue_id :: string
  ruleId :: string
  errorCode :: string
  family :: issue_family
  severity :: issue_severity
  message :: string
  remediation :: string
  location :: "Location option"
  suggestions :: "string list option"
  fixable :: bool

text \<open>\<^verbatim>\<open>options.message || catalog.message\<close>: an absent or empty message falls back.\<close>

definition createIssue ::
  "AutoFlowValidator \<Rightarrow> string \<Rightarrow> error_code \<Rightarrow> string option \<Rightarrow> Location option \<Rightarrow>
   string list option \<Rightarrow> LintIssue \<times> AutoFlowValidator" where
  "createIssue V rule code msg loc sugg =
    (let catalog = ERROR_CATALOG code in
     (\<lparr>issue_id = ''issue-'' @ show_nat (nextIssueId V),
       ruleId = rule,
       errorCode = family_name (cat_family catalog) @ ''-'' @ code_number code,
       family = cat_family catalog,
       severity = cat_severity catalog,
       message = (case msg of None \<Rightarrow> cat_message catalog
                  | Some m \<Rightarrow> if m = [] then cat_message catalog else m),
       remediation = cat_remediation catalog,
       location = loc,
       suggestions = sugg,
       fixable = False\<rparr>,
      V\<lparr>nextIssueId := nextIssueId V + 1\<rparr>))"

text \<open>\<^verbatim>\<open>error instanceof Error ? error.message : 'Unknown error'\<close>: both errors are.\<close>

definition createSystemError :: "AutoFlowValidator \<Rightarrow> error \<Rightarrow> LintIssue \<times> AutoFlowValidator" where
  "createSystemError V e =
    (\<lparr>issue_id = ''system-error-'' @ show_nat (nextIssueId V),
      ruleId = ''system/parse-error'',
      errorCode = ''SYS-5510'',
      family = SYS,
      severity = SevError,
      message = ''System error: '' @ error_message e,
      remediation = ''Check workflow structure and try again'',
      location = None,
      suggestions = None,
      fixable = False\<rparr>,
     V\<lparr>nextIssueId := nextIssueId V + 1\<rparr>)"

definition filterIssues :: "AutoFlowValidator \<Rightarrow> LintIssue list \<Rightarrow> LintIssue list" where
  "filterIssues V issues = filter (\<lambda>issue. isRuleEnabled V (ruleId issue)) issues"

definition at_node :: "string \<Rightarrow> Location option" where
  "at_node n = Some \<lparr>loc_nodeId = Some n, loc_edgeId = None, loc_path = None\<rparr>"

definition at_path :: "string \<Rightarrow> Location option" where
  "at_path p = Some \<lparr>loc_nodeId = None, loc_edgeId = None, loc_path = Some p\<rparr>"

subsection \<open>validator.ts: structural validation\<close>

text \<open>
  The literal \<^verbatim>\<open>semverPattern\<close>,
  \<^verbatim>\<open>^(0|[1-9]\d*)\.(0|[1-9]\d*)\.(0|[1-9]\d*)(?:-[0-9A-Za-z.-]+)?(?:\+[0-9A-Za-z.-]+)?$\<close>,
  as a recogniser.  A numeric part holds no dot, so the first two end at the first and
  second dot and the third is the longest run of digits that follows; the class
  \<^verbatim>\<open>[0-9A-Za-z.-]\<close> holds no plus sign, so the pre-release part ends at the first one.
\<close>

definition is_digit :: "char \<Rightarrow> bool" where
  "is_digit c = (c \<in> set ''0123456789'')"

definition is_identifier_char :: "char \<Rightarrow> bool" where
  "is_identifier_char c =
    (c \<in> set ''0123456789ABCDEFGHIJKLMNOPQRSTUVWXYZabcdefghijklmnopqrstuvwxyz.-'')"

definition numeric_part :: "string \<Rightarrow> bool" where
  "numeric_part s =
    (s = ''0'' \<or> (s \<noteq> [] \<and> hd s \<in> set ''123456789'' \<and> list_all is_digit (tl s)))"

definition identifier_part :: "string \<Rightarrow> bool" where
  "identifier_part s = (s \<noteq> [] \<and> list_all is_identifier_char s)"

definition semver_suffix :: "string \<Rightarrow> bool" where
  "semver_suffix s =
    (case s of
       [] \<Rightarrow> True
     | c # r \<Rightarrow>
        if c = CHR ''-'' then
          (let pre = takeWhile (\<lambda>x. x \<noteq> CHR ''+'') r;
               build = dropWhile (\<lambda>x. x \<noteq> CHR ''+'') r
           in identifier_part pre \<and> (build = [] \<or> identifier_part (tl build)))
        else if c = CHR ''+'' then identifier_part r
        else False)"

definition semverPattern_test :: "string \<Rightarrow> bool" where
  "semverPattern_test s =
    (let major = takeWhile (\<lambda>x. x \<noteq> CHR ''.'') s;
         r1 = dropWhile (\<lambda>x. x \<noteq> CHR ''.'') s;
         minor = takeWhile (\<lambda>x. x \<noteq> CHR ''.'') (tl r1);
         r2 = dropWhile (\<lambda>x. x \<noteq> CHR ''.'') (tl r1);
         patch = takeWhile is_digit (tl r2);
         r3 = dropWhile is_digit (tl r2)
     in numeric_part major \<and> r1 \<noteq> [] \<and> numeric_part minor \<and> r2 \<noteq> [] \<and>
        numeric_part patch \<and> semver_suffix r3)"

text \<open>\<^verbatim>\<open>!workflow[field]\<close>: an absent property and an empty string are both falsy.\<close>

definition falsy :: "string option \<Rightarrow> bool" where
  "falsy s = (case s of None \<Rightarrow> True | Some v \<Rightarrow> v = [])"

definition field_missing :: "AutomaterWorkflow \<Rightarrow> string \<Rightarrow> bool" where
  "field_missing workflow field =
    (if field = ''id'' then falsy (wf_id workflow)
     else if field = ''name'' then falsy (wf_name workflow)
     else if field = ''version'' then falsy (wf_version workflow)
     else if field = ''trigger'' then wf_trigger workflow = None
     else True)"

definition requiredFields :: "string list" where
  "requiredFields = [''id'', ''name'', ''version'', ''trigger'']"

definition quoted :: "string \<Rightarrow> string" where
  "quoted s = [CHR 0x27] @ s @ [CHR 0x27]"

fun required_fields_loop ::
  "AutomaterWorkflow \<Rightarrow> string list \<Rightarrow> LintIssue list \<times> AutoFlowValidator \<Rightarrow>
   LintIssue list \<times> AutoFlowValidator" where
  "required_fields_loop workflow [] acc = acc"
| "required_fields_loop workflow (field # rest) (issues, V) =
    (if field_missing workflow field then
       (let (i, V') = createIssue V ''schema/required-fields'' C5511
                        (Some (''Required field '' @ quoted field @ '' is missing''))
                        (at_path field) None
        in required_fields_loop workflow rest (issues @ [i], V'))
     else required_fields_loop workflow rest (issues, V))"

definition validateWorkflowStructure ::
  "AutoFlowValidator \<Rightarrow> AutomaterWorkflow \<Rightarrow> LintIssue list \<times> AutoFlowValidator" where
  "validateWorkflowStructure V workflow =
    (if \<not> isRuleEnabled V ''schema/required-fields'' then ([], V)
     else
       (let (issues, V1) = required_fields_loop workflow requiredFields ([], V) in
        case wf_version workflow of
          None \<Rightarrow> (issues, V1)
        | Some version \<Rightarrow>
            if version \<noteq> [] \<and> isRuleEnabled V1 ''schema/semver'' \<and> \<not> semverPattern_test version
            then (let (i, V2) = createIssue V1 ''schema/semver'' C5511
                                  (Some ''Version must be valid SemVer (e.g., 1.2.3)'')
                                  (at_path ''version'') None
                  in (issues @ [i], V2))
            else (issues, V1)))"

subsection \<open>validator.ts: graph integrity\<close>

text \<open>
  A \<^verbatim>\<open>Map<string, string[]>\<close> is an association list in insertion order:
  \<^verbatim>\<open>set\<close> is \<^const>\<open>AList.update\<close>, \<^verbatim>\<open>get\<close> is \<^const>\<open>map_of\<close>.
\<close>

type_synonym adjacency = "(string \<times> string list) list"

text \<open>\<^verbatim>\<open>m.get(k)?.push(v)\<close>: nothing happens when \<^verbatim>\<open>k\<close> is not a key.\<close>

definition Map_push :: "adjacency \<Rightarrow> string \<Rightarrow> string \<Rightarrow> adjacency" where
  "Map_push m k v =
    (case map_of m k of None \<Rightarrow> m | Some vs \<Rightarrow> AList.update k (vs @ [v]) m)"

text \<open>\<^verbatim>\<open>m.get(k) || []\<close>\<close>

definition Map_get_or_empty :: "adjacency \<Rightarrow> string \<Rightarrow> string list" where
  "Map_get_or_empty m k = (case map_of m k of None \<Rightarrow> [] | Some vs \<Rightarrow> vs)"

record Graph =
  graph_issues :: "LintIssue list"
  graph_validator :: AutoFlowValidator
  adjacencyList :: adjacency
  reverseAdjacencyList :: adjacency

definition initialize :: "WorkflowNode list \<Rightarrow> adjacency" where
  "initialize nodes = foldl (\<lambda>m node. AList.update (node_id node) [] m) [] nodes"

definition node_connections :: "WorkflowNode \<Rightarrow> string list" where
  "node_connections node = (case connections node of None \<Rightarrow> [] | Some cs \<Rightarrow> cs)"

text \<open>The inner loop over \<^verbatim>\<open>connections\<close>; \<^verbatim>\<open>nodeIds\<close> is the set of declared ids.\<close>

fun connect_targets :: "string list \<Rightarrow> WorkflowNode \<Rightarrow> string list \<Rightarrow> Graph \<Rightarrow> Graph" where
  "connect_targets nodeIds node [] g = g"
| "connect_targets nodeIds node (targetId # rest) g =
    (if targetId \<notin> set nodeIds \<and> isRuleEnabled (graph_validator g) ''graph/missing-nodes'' then
       (let (i, V') = createIssue (graph_validator g) ''graph/missing-nodes'' C3311
                        (Some (''Node '' @ quoted (node_id node) @
                               '' connects to non-existent node '' @ quoted targetId))
                        (at_node (node_id node)) None
        in connect_targets nodeIds node rest
             (g\<lparr>graph_issues := graph_issues g @ [i], graph_validator := V'\<rparr>))
     else
       connect_targets nodeIds node rest
         (g\<lparr>adjacencyList := Map_push (adjacencyList g) (node_id node) targetId,
            reverseAdjacencyList := Map_push (reverseAdjacencyList g) targetId (node_id node)\<rparr>))"

fun build_connections :: "string list \<Rightarrow> WorkflowNode list \<Rightarrow> Graph \<Rightarrow> Graph" where
  "build_connections nodeIds [] g = g"
| "build_connections nodeIds (node # nodes) g =
    build_connections nodeIds nodes (connect_targets nodeIds node (node_connections node) g)"

definition build_graph :: "AutoFlowValidator \<Rightarrow> WorkflowNode list \<Rightarrow> Graph" where
  "build_graph V nodes =
    build_connections (map node_id nodes) nodes
      \<lparr>graph_issues = [], graph_validator = V,
       adjacencyList = initialize nodes, reverseAdjacencyList = initialize nodes\<rparr>"

definition is_entry :: "adjacency \<Rightarrow> WorkflowNode \<Rightarrow> bool" where
  "is_entry reverse node =
    (node_type node = ''trigger'' \<or> length (Map_get_or_empty reverse (node_id node)) = 0)"

text \<open>The ids an adjacency list mentions; the traversal below is measured against them.\<close>

definition graph_ids :: "adjacency \<Rightarrow> string set" where
  "graph_ids adj = fst ` set adj \<union> (\<Union>(k, vs) \<in> set adj. set vs)"

text \<open>
  The recursive closure \<^verbatim>\<open>dfs\<close> with its call stack made explicit: the ids still to
  be visited, those of the node in hand before those its callers have left.
  \<^verbatim>\<open>entryNodes.forEach(node => dfs(node.id))\<close> starts it on the entry ids, and
  \<open>reachable\<close> is the set of visited ids.
\<close>

function dfs :: "adjacency \<Rightarrow> string list \<Rightarrow> string list \<Rightarrow> string list" where
  "dfs adj [] reachable = reachable"
| "dfs adj (nodeId # pending) reachable =
    (if nodeId \<in> set reachable then dfs adj pending reachable
     else dfs adj (Map_get_or_empty adj nodeId @ pending) (Set_add reachable nodeId))"
  by pat_completeness auto

termination dfs
proof (relation "(\<lambda>(adj, pending, reachable). card (graph_ids adj - set reachable)) <*mlex*>
                 measure (\<lambda>(adj, pending, reachable). length pending)")
  show "wf ((\<lambda>(adj, pending, reachable). card (graph_ids adj - set reachable)) <*mlex*>
            measure (\<lambda>(adj, pending, reachable). length pending))"
    by (simp add: wf_mlex)
next
  fix adj :: adjacency and nodeId :: string and pending reachable :: "string list"
  assume "nodeId \<in> set reachable"
  then show "((adj, pending, reachable), adj, nodeId # pending, reachable)
       \<in> (\<lambda>(adj, pending, reachable). card (graph_ids adj - set reachable)) <*mlex*>
          measure (\<lambda>(adj, pending, reachable). length pending)"
    by (simp add: mlex_iff)
next
  fix adj :: adjacency and nodeId :: string and pending reachable :: "string list"
  assume new: "nodeId \<notin> set reachable"
  have fin: "finite (graph_ids adj)"
    by (auto simp: graph_ids_def)
  show "((adj, Map_get_or_empty adj nodeId @ pending, Set_add reachable nodeId),
         adj, nodeId # pending, reachable)
       \<in> (\<lambda>(adj, pending, reachable). card (graph_ids adj - set reachable)) <*mlex*>
          measure (\<lambda>(adj, pending, reachable). length pending)"
  proof (cases "nodeId \<in> graph_ids adj")
    case True
    have "graph_ids adj - set (Set_add reachable nodeId) \<subset> graph_ids adj - set reachable"
      using True new by (auto simp: Set_add_def)
    then have "card (graph_ids adj - set (Set_add reachable nodeId))
                 < card (graph_ids adj - set reachable)"
      by (intro psubset_card_mono) (auto simp: fin)
    then show ?thesis by (simp add: mlex_iff)
  next
    case False
    then have none: "Map_get_or_empty adj nodeId = []"
      by (auto simp: graph_ids_def Map_get_or_empty_def map_of_eq_None_iff[symmetric]
               split: option.splits)
    have "graph_ids adj - set (Set_add reachable nodeId) = graph_ids adj - set reachable"
      using False new by (auto simp: Set_add_def)
    then show ?thesis using none by (simp add: mlex_iff)
  qed
qed

text \<open>\<^verbatim>\<open>issues.push(this.createIssue(...))\<close>\<close>

definition push_issue ::
  "LintIssue list \<times> AutoFlowValidator \<Rightarrow> string \<Rightarrow> error_code \<Rightarrow> string option \<Rightarrow>
   Location option \<Rightarrow> string list option \<Rightarrow> LintIssue list \<times> AutoFlowValidator" where
  "push_issue acc rule code msg loc sugg =
    (let (i, V') = createIssue (snd acc) rule code msg loc sugg in (fst acc @ [i], V'))"

fun unreachable_loop ::
  "WorkflowNode list \<Rightarrow> LintIssue list \<times> AutoFlowValidator \<Rightarrow>
   LintIssue list \<times> AutoFlowValidator" where
  "unreachable_loop [] acc = acc"
| "unreachable_loop (node # rest) acc =
    unreachable_loop rest
      (push_issue acc ''graph/unreachable-nodes'' C3310
         (Some (''Node '' @ quoted (node_id node) @ '' is unreachable from entry points''))
         (at_node (node_id node)) None)"

definition check_entry_points ::
  "WorkflowNode list \<Rightarrow> LintIssue list \<times> AutoFlowValidator \<Rightarrow>
   LintIssue list \<times> AutoFlowValidator" where
  "check_entry_points entryNodes acc =
    (if isRuleEnabled (snd acc) ''graph/entry-points'' \<and> length entryNodes = 0
     then push_issue acc ''graph/entry-points'' C3311
            (Some ''Workflow must have at least one entry point (trigger node)'')
            (at_path ''nodes'') None
     else acc)"

definition check_unreachable ::
  "adjacency \<Rightarrow> WorkflowNode list \<Rightarrow> WorkflowNode list \<Rightarrow>
   LintIssue list \<times> AutoFlowValidator \<Rightarrow> LintIssue list \<times> AutoFlowValidator" where
  "check_unreachable adj nodes entryNodes acc =
    (if isRuleEnabled (snd acc) ''graph/unreachable-nodes'' then
       (let reachable = dfs adj (map node_id entryNodes) [];
            unreachableNodes = filter (\<lambda>node. node_id node \<notin> set reachable) nodes
        in unreachable_loop unreachableNodes acc)
     else acc)"

definition validateGraphIntegrity ::
  "AutoFlowValidator \<Rightarrow> WorkflowNode list \<Rightarrow> LintIssue list \<times> AutoFlowValidator" where
  "validateGraphIntegrity V nodes =
    (if length nodes = 0 then ([], V)
     else
       (let g = build_graph V nodes;
            entryNodes = filter (is_entry (reverseAdjacencyList g)) nodes
        in check_unreachable (adjacencyList g) nodes entryNodes
             (check_entry_points entryNodes (graph_issues g, graph_validator g))))"

subsection \<open>validator.ts: nodes, variables, performance\<close>

definition setting_rateLimits :: "AutoFlowValidator \<Rightarrow> RateLimits option" where
  "setting_rateLimits V = (case settings (config V) of None \<Rightarrow> None | Some s \<Rightarrow> rateLimits s)"

definition setting_naming :: "AutoFlowValidator \<Rightarrow> Naming option" where
  "setting_naming V = (case settings (config V) of None \<Rightarrow> None | Some s \<Rightarrow> naming s)"

text \<open>\<^verbatim>\<open>this.config.settings?.rateLimits?.maxNodeWeight || 100\<close>: zero is falsy too.\<close>

definition setting_maxNodeWeight :: "AutoFlowValidator \<Rightarrow> int" where
  "setting_maxNodeWeight V =
    (case setting_rateLimits V of
       None \<Rightarrow> 100
     | Some r \<Rightarrow> if maxNodeWeight r = 0 then 100 else maxNodeWeight r)"

definition setting_maxWorkflowWeight :: "AutoFlowValidator \<Rightarrow> int" where
  "setting_maxWorkflowWeight V =
    (case setting_rateLimits V of
       None \<Rightarrow> 1000
     | Some r \<Rightarrow> if maxWorkflowWeight r = 0 then 1000 else maxWorkflowWeight r)"

definition setting_warnThreshold :: "AutoFlowValidator \<Rightarrow> rat" where
  "setting_warnThreshold V =
    (case setting_rateLimits V of
       None \<Rightarrow> 8 / 10
     | Some r \<Rightarrow> if warnThreshold r = 0 then 8 / 10 else warnThreshold r)"

definition setting_variableNamePattern :: "AutoFlowValidator \<Rightarrow> string" where
  "setting_variableNamePattern V =
    (case setting_naming V of
       None \<Rightarrow> ''^[a-zA-Z][a-zA-Z0-9_]*$''
     | Some n \<Rightarrow> if variableNamePattern n = [] then ''^[a-zA-Z][a-zA-Z0-9_]*$''
                 else variableNamePattern n)"

definition check_node ::
  "WorkflowNode \<Rightarrow> LintIssue list \<times> AutoFlowValidator \<Rightarrow> LintIssue list \<times> AutoFlowValidator" where
  "check_node node acc =
    (let acc1 = (if node_type node = ''action'' \<and> isRuleEnabled (snd acc) ''action/unknown-type''
                    \<and> falsy (action node)
                 then push_issue acc ''action/missing-params'' C3311
                        (Some (''Action node '' @ quoted (node_id node) @ '' is missing action type''))
                        (at_node (node_id node)) None
                 else acc);
         acc2 = (if node_type node = ''action'' \<and> isRuleEnabled (snd acc1) ''perf/missing-weight''
                    \<and> weight node = None
                 then push_issue acc1 ''perf/missing-weight'' C4121
                        (Some (''Action node '' @ quoted (node_id node) @
                               '' is missing rate limit weight''))
                        (at_node (node_id node))
                        (Some [''Add weight property (typical values: 5-30)''])
                 else acc1)
     in case weight node of
          None \<Rightarrow> acc2
        | Some w \<Rightarrow>
            if isRuleEnabled (snd acc2) ''perf/high-weight'' \<and> w > setting_maxNodeWeight (snd acc2)
            then push_issue acc2 ''perf/high-weight'' C4120
                   (Some (''Node '' @ quoted (node_id node) @ '' weight ('' @ show_int w @
                          '') exceeds recommended maximum ('' @
                          show_int (setting_maxNodeWeight (snd acc2)) @ '')''))
                   (at_node (node_id node)) None
            else acc2)"

definition validateNodeList ::
  "AutoFlowValidator \<Rightarrow> WorkflowNode list \<Rightarrow> LintIssue list \<times> AutoFlowValidator" where
  "validateNodeList V nodes = foldl (\<lambda>acc node. check_node node acc) ([], V) nodes"

text \<open>
  \<^verbatim>\<open>validateNodes\<close> is declared \<^verbatim>\<open>async\<close>: its body runs at the call, and the caller
  gets a promise of the filtered issues.
\<close>

definition to_workflowNode :: "WorkflowNode \<Rightarrow> WorkflowNode" where
  "to_workflowNode node =
    \<lparr>node_id = node_id node,
     node_type = (if node_type node = [] then ''action'' else node_type node),
     action = action node,
     connections = Some (node_connections node),
     weight = weight node,
     node_permissions = None\<rparr>"

definition validateNodes ::
  "AutoFlowValidator \<Rightarrow> WorkflowNode list \<Rightarrow> LintIssue list promise \<times> AutoFlowValidator" where
  "validateNodes V nodes =
    (let workflowNodes = map to_workflowNode nodes;
         (graphIssues, V1) = validateGraphIntegrity V workflowNodes;
         (nodeIssues, V2) = validateNodeList V1 workflowNodes
     in (Fulfilled (filterIssues V2 (graphIssues @ nodeIssues)), V2))"

text \<open>
  \<^verbatim>\<open>new RegExp(pattern)\<close> on a configured pattern is the engine's: the constructor is the
  parameter \<open>RegExp\<close>, which throws a \<^verbatim>\<open>SyntaxError\<close> or gives the \<^verbatim>\<open>test\<close> of the
  compiled expression.
\<close>

type_synonym regexp_constructor = "string \<Rightarrow> error + (string \<Rightarrow> bool)"

fun variables_loop ::
  "(string \<Rightarrow> bool) \<Rightarrow> VariableDefinition list \<Rightarrow> LintIssue list \<times> AutoFlowValidator \<Rightarrow>
   LintIssue list \<times> AutoFlowValidator" where
  "variables_loop regex_test [] acc = acc"
| "variables_loop regex_test (variable # rest) acc =
    variables_loop regex_test rest
      (if \<not> regex_test (var_name variable)
       then push_issue acc ''variable/naming-convention'' C3312
              (Some (''Variable name '' @ quoted (var_name variable) @
                     '' doesn'' @ [CHR 0x27] @ ''t follow naming convention''))
              (at_path (''variables.'' @ var_name variable))
              (Some [''Use camelCase or snake_case naming''])
       else acc)"

definition validateVariables ::
  "regexp_constructor \<Rightarrow> AutoFlowValidator \<Rightarrow> VariableDefinition list \<Rightarrow>
   (error + LintIssue list) \<times> AutoFlowValidator" where
  "validateVariables RegExp V variables =
    (if \<not> isRuleEnabled V ''variable/naming-convention'' then (Inr [], V)
     else
       (case RegExp (setting_variableNamePattern V) of
          Inl e \<Rightarrow> (Inl e, V)
        | Inr regex_test \<Rightarrow>
            (let (issues, V') = variables_loop regex_test variables ([], V) in (Inr issues, V'))))"

text \<open>
  \<^verbatim>\<open>node.weight || 0\<close>.  Weights and weight limits are integers here, and the
  threshold is a rational; the product \<^verbatim>\<open>maxWeight * warnThreshold\<close> below is taken
  exactly, in the rationals, where the source multiplies doubles and rounds the product
  (so that \<^verbatim>\<open>100 * 0.57\<close> is below 57 there and equal to 57 here).  The comparison
  is reached only on a workflow with a node list.
\<close>

definition weight_or_zero :: "WorkflowNode \<Rightarrow> int" where
  "weight_or_zero node = (case weight node of None \<Rightarrow> 0 | Some w \<Rightarrow> w)"

definition validatePerformance ::
  "AutoFlowValidator \<Rightarrow> AutomaterWorkflow \<Rightarrow> LintIssue list \<times> AutoFlowValidator" where
  "validatePerformance V workflow =
    (case wf_nodes workflow of
       None \<Rightarrow> ([], V)
     | Some nodes \<Rightarrow>
        (let acc = ([], V);
             acc1 = (if isRuleEnabled (snd acc) ''perf/large-workflow'' \<and> length nodes > 50
                     then push_issue acc ''perf/large-workflow'' C4120
                            (Some (''Large workflow ('' @ show_nat (length nodes) @
                                   '' nodes) may be difficult to maintain''))
                            (at_path ''nodes'') None
                     else acc);
             totalWeight = foldl (\<lambda>total node. total + weight_or_zero node) 0 nodes
         in if isRuleEnabled (snd acc1) ''perf/high-weight''
               \<and> of_int totalWeight
                    > of_int (setting_maxWorkflowWeight (snd acc1)) * setting_warnThreshold (snd acc1)
            then push_issue acc1 ''perf/high-weight'' C4120
                   (Some (''Total workflow weight ('' @ show_int totalWeight @
                          '') approaches rate limit threshold''))
                   (at_path ''nodes'') None
            else acc1))"

subsection \<open>validator.ts: permission inference on a validation run\<close>

text \<open>
  \<^verbatim>\<open>detectAndValidatePermissions\<close> writes \<^verbatim>\<open>node.permissions\<close> and
  \<^verbatim>\<open>workflow.permissions\<close>: the loop returns the nodes as it leaves them, also when it
  stops at an exception (first component).
\<close>

fun permissions_loop ::
  "WorkflowNode list \<Rightarrow> string list \<times> LintIssue list \<times> AutoFlowValidator \<Rightarrow>
   error option \<times> WorkflowNode list \<times> string list \<times> LintIssue list \<times> AutoFlowValidator" where
  "permissions_loop [] (required, acc) = (None, [], required, acc)"
| "permissions_loop (node # rest) (required, acc) =
    (case action node of
       None \<Rightarrow>
        (let (err, rest', out) = permissions_loop rest (required, acc) in (err, node # rest', out))
     | Some a \<Rightarrow>
        if node_type node = ''action'' \<and> a \<noteq> [] then
          if hasActionPermissionMapping a then
            (case get_property ACTION_PERMISSION_MAPPINGS a of
               Own actionPerms \<Rightarrow>
                (let (err, rest', out) =
                       permissions_loop rest (Set_add_all required actionPerms, acc)
                 in (err, node\<lparr>node_permissions := Some actionPerms\<rparr> # rest', out))
             | _ \<Rightarrow> (Some (TypeError ''forEach is not a function''), node # rest, required, acc))
          else
            (let acc' = (if isRuleEnabled (snd acc) ''security/missing-permissions''
                         then push_issue acc ''security/missing-permissions'' C3311
                                (Some (''Unknown action '' @ quoted a @
                                       '' - cannot detect required permissions''))
                                (at_node (node_id node))
                                (Some [''Check if action is implemented in permission-mappings.ts'',
                                       ''Add permission mapping for this action type''])
                         else acc);
                 (err, rest', out) = permissions_loop rest (required, acc')
             in (err, node\<lparr>node_permissions := Some []\<rparr> # rest', out))
        else
          (let (err, rest', out) = permissions_loop rest (required, acc)
           in (err, node # rest', out)))"

definition detectAndValidatePermissions ::
  "AutoFlowValidator \<Rightarrow> AutomaterWorkflow \<Rightarrow>
   (error + LintIssue list) \<times> AutomaterWorkflow \<times> AutoFlowValidator" where
  "detectAndValidatePermissions V workflow =
    (case trigger_permissions workflow [] of
       Inl e \<Rightarrow> (Inl e, workflow, V)
     | Inr required \<Rightarrow>
        (case wf_nodes workflow of
           None \<Rightarrow> (Inl (TypeError ''workflow.nodes is not iterable''), workflow, V)
         | Some nodes \<Rightarrow>
            (let (err, nodes', required', issues, V') = permissions_loop nodes (required, [], V)
             in case err of
                  Some e \<Rightarrow> (Inl e, workflow\<lparr>wf_nodes := Some nodes'\<rparr>, V')
                | None \<Rightarrow>
                    (Inr issues,
                     workflow\<lparr>wf_nodes := Some nodes', wf_permissions := Some (sort required')\<rparr>,
                     V'))))"

subsection \<open>validator.ts: the validation run\<close>

record Summary =
  sum_total :: nat
  sum_errors :: nat
  sum_warnings :: nat
  sum_infos :: nat
  sum_criticals :: nat

record WorkflowLintResult =
  workflowId :: string
  isValid :: bool
  summary :: Summary
  res_issues :: "LintIssue list"
  res_errors :: "LintIssue list"
  res_warnings :: "LintIssue list"
  res_infos :: "LintIssue list"
  res_criticals :: "LintIssue list"
  fixableCount :: nat
  res_rulesExecuted :: nat

text \<open>
  What the \<^verbatim>\<open>try\<close> block of \<^verbatim>\<open>validateWorkflow\<close> has done when it ends or throws: the
  issues pushed so far, the validator, the workflow object, \<^verbatim>\<open>rulesExecuted\<close>.
\<close>

record Run =
  run_issues :: "LintIssue list"
  run_validator :: AutoFlowValidator
  run_workflow :: AutomaterWorkflow
  rulesExecuted :: nat

text \<open>Steps 4 to 6: variables, performance, permissions.\<close>

definition validateWorkflow_steps_4_6 :: "regexp_constructor \<Rightarrow> Run \<Rightarrow> error option \<times> Run" where
  "validateWorkflow_steps_4_6 RegExp r =
    (let workflow = run_workflow r;
         step4 = (case wf_variables workflow of
                    None \<Rightarrow> (None, r)
                  | Some variables \<Rightarrow>
                     (case validateVariables RegExp (run_validator r) variables of
                        (Inl e, V') \<Rightarrow> (Some e, r\<lparr>run_validator := V'\<rparr>)
                      | (Inr variableIssues, V') \<Rightarrow>
                         (None, r\<lparr>run_issues := run_issues r @ variableIssues,
                                   run_validator := V',
                                   rulesExecuted := rulesExecuted r + length variables * 2\<rparr>)))
     in case step4 of
          (Some e, r4) \<Rightarrow> (Some e, r4)
        | (None, r4) \<Rightarrow>
           (let (performanceIssues, V5) = validatePerformance (run_validator r4) workflow;
                r5 = r4\<lparr>run_issues := run_issues r4 @ performanceIssues,
                        run_validator := V5,
                        rulesExecuted := rulesExecuted r4 + 3\<rparr>
            in if wf_trigger workflow \<noteq> None \<and> wf_nodes workflow \<noteq> None then
                 (case detectAndValidatePermissions V5 workflow of
                    (Inl e, workflow', V6) \<Rightarrow>
                      (Some e, r5\<lparr>run_validator := V6, run_workflow := workflow'\<rparr>)
                  | (Inr permissionIssues, workflow', V6) \<Rightarrow>
                      (None, r5\<lparr>run_issues := run_issues r5 @ permissionIssues,
                                 run_validator := V6,
                                 run_workflow := workflow',
                                 rulesExecuted := rulesExecuted r5 + 1\<rparr>))
               else (None, r5)))"

text \<open>
  The \<^verbatim>\<open>try\<close> block.  In step 3 the value of \<^verbatim>\<open>this.validateNodes(workflow.nodes)\<close>
  is a promise, and \<^verbatim>\<open>issues.push(...nodeIssues)\<close> spreads it.
\<close>

definition validateWorkflow_try ::
  "regexp_constructor \<Rightarrow> AutoFlowValidator \<Rightarrow> AutomaterWorkflow \<Rightarrow> error option \<times> Run" where
  "validateWorkflow_try RegExp V workflow =
    (let (structureIssues, V1) = validateWorkflowStructure V workflow;
         r1 = \<lparr>run_issues = structureIssues, run_validator = V1, run_workflow = workflow,
               rulesExecuted = 4\<rparr>;
         r2 = (case wf_nodes workflow of
                 None \<Rightarrow> r1
               | Some nodes \<Rightarrow>
                  if length nodes > 0 then
                    (let (graphIssues, V2) = validateGraphIntegrity V1 nodes
                     in r1\<lparr>run_issues := run_issues r1 @ graphIssues,
                           run_validator := V2,
                           rulesExecuted := rulesExecuted r1 + 5\<rparr>)
                  else r1)
     in case wf_nodes workflow of
          None \<Rightarrow> validateWorkflow_steps_4_6 RegExp r2
        | Some nodes \<Rightarrow>
           (let (nodeIssues, V3) = validateNodes (run_validator r2) nodes;
                r3 = r2\<lparr>run_validator := V3\<rparr>
            in case spread_promise nodeIssues of
                 Inl e \<Rightarrow> (Some e, r3)
               | Inr pushed \<Rightarrow>
                  validateWorkflow_steps_4_6 RegExp
                    (r3\<lparr>run_issues := run_issues r3 @ pushed,
                        rulesExecuted := rulesExecuted r3 + length nodes * 3\<rparr>)))"

text \<open>\<^verbatim>\<open>workflow.id || 'unknown'\<close>\<close>

definition id_or_unknown :: "AutomaterWorkflow \<Rightarrow> string" where
  "id_or_unknown workflow =
    (case wf_id workflow of None \<Rightarrow> ''unknown'' | Some i \<Rightarrow> if i = [] then ''unknown'' else i)"

text \<open>
  \<^verbatim>\<open>validateWorkflow\<close> is \<^verbatim>\<open>async\<close>: it returns a promise, with the validator and the
  workflow object as the run leaves them.  The \<^verbatim>\<open>catch\<close> block calls
  \<^verbatim>\<open>createSystemError\<close> twice, for \<^verbatim>\<open>issues\<close> and for \<^verbatim>\<open>errors\<close>.
\<close>

definition validateWorkflow ::
  "regexp_constructor \<Rightarrow> AutoFlowValidator \<Rightarrow> AutomaterWorkflow \<Rightarrow>
   WorkflowLintResult promise \<times> AutomaterWorkflow \<times> AutoFlowValidator" where
  "validateWorkflow RegExp V workflow =
    (case validateWorkflow_try RegExp V workflow of
       (None, r) \<Rightarrow>
        (let filteredIssues = filterIssues (run_validator r) (run_issues r);
             errors = filter (\<lambda>i. severity i = SevError) filteredIssues;
             warnings = filter (\<lambda>i. severity i = SevWarn) filteredIssues;
             infos = filter (\<lambda>i. severity i = SevInfo) filteredIssues;
             criticals = filter (\<lambda>i. severity i = SevCritical) filteredIssues
         in (Fulfilled
              \<lparr>workflowId = id_or_unknown workflow,
               isValid = (length errors = 0 \<and> length criticals = 0),
               summary = \<lparr>sum_total = length filteredIssues, sum_errors = length errors,
                          sum_warnings = length warnings, sum_infos = length infos,
                          sum_criticals = length criticals\<rparr>,
               res_issues = filteredIssues,
               res_errors = errors,
               res_warnings = warnings,
               res_infos = infos,
               res_criticals = criticals,
               fixableCount = length (filter fixable filteredIssues),
               res_rulesExecuted = rulesExecuted r\<rparr>,
             run_workflow r, run_validator r))
     | (Some e, r) \<Rightarrow>
        (let (i1, V1) = createSystemError (run_validator r) e;
             (i2, V2) = createSystemError V1 e
         in (Fulfilled
              \<lparr>workflowId = id_or_unknown workflow,
               isValid = False,
               summary = \<lparr>sum_total = 1, sum_errors = 1, sum_warnings = 0, sum_infos = 0,
                          sum_criticals = 0\<rparr>,
               res_issues = [i1],
               res_errors = [i2],
               res_warnings = [],
               res_infos = [],
               res_criticals = [],
               fixableCount = 0,
               res_rulesExecuted = rulesExecuted r\<rparr>,
             run_workflow r, V2)))"

text \<open>
  For the examples: the engine's constructor on the default variable-name pattern
  \<^verbatim>\<open>^[a-zA-Z][a-zA-Z0-9_]*$\<close>, and on the unterminated group \<^verbatim>\<open>(\<close>, a syntax error.
  No other pattern is used below; this sample rejects them.
\<close>

definition is_letter :: "char \<Rightarrow> bool" where
  "is_letter c = (c \<in> set ''ABCDEFGHIJKLMNOPQRSTUVWXYZabcdefghijklmnopqrstuvwxyz'')"

definition default_variableName_test :: "string \<Rightarrow> bool" where
  "default_variableName_test s =
    (case s of
       [] \<Rightarrow> False
     | c # r \<Rightarrow> is_letter c \<and> list_all (\<lambda>x. is_letter x \<or> is_digit x \<or> x = CHR ''_'') r)"

definition sample_RegExp :: regexp_constructor where
  "sample_RegExp pattern =
    (if pattern = ''^[a-zA-Z][a-zA-Z0-9_]*$'' then Inr default_variableName_test
     else Inl (SyntaxError (''Invalid regular expression: /'' @ pattern @ ''/'')))"

subsection \<open>Example inputs\<close>

definition default_validator :: AutoFlowValidator where
  "default_validator = new_AutoFlowValidator \<lparr>partial_rules = None, partial_settings = None\<rparr>"

definition trigger_send_message :: WorkflowTrigger where
  "trigger_send_message =
    \<lparr>trigger_type = ''event'', event = Some ''send_message'', command = None, prefix = None,
     schedule = None\<rparr>"

definition action_node :: "string \<Rightarrow> string \<Rightarrow> WorkflowNode" where
  "action_node i a =
    \<lparr>node_id = i, node_type = ''action'', action = Some a, connections = None, weight = None,
     node_permissions = None\<rparr>"

definition workflow_of :: "string \<Rightarrow> WorkflowNode list \<Rightarrow> AutomaterWorkflow" where
  "workflow_of i nodes =
    \<lparr>wf_id = Some i, wf_name = Some ''Test Workflow'', wf_version = Some ''1.0.0'',
     wf_trigger = Some trigger_send_message, wf_nodes = Some nodes, wf_permissions = None,
     wf_variables = None\<rparr>"

definition workflow_A :: AutomaterWorkflow where
  "workflow_A = workflow_of ''wf-a'' [action_node ''node-1'' ''send_message'']"

definition workflow_ban :: AutomaterWorkflow where
  "workflow_ban = workflow_of ''wf-ban'' [action_node ''node-1'' ''ban_user'']"

definition workflow_toString :: AutomaterWorkflow where
  "workflow_toString = workflow_of ''wf-proto'' [action_node ''node-1'' ''toString'']"

definition pack_of :: "AutomaterWorkflow list option \<Rightarrow> AutomaterPack" where
  "pack_of ws =
    \<lparr>pack_id = ''pack'', pack_name = ''Pack'', pack_version = ''1.0.0'', automations = ws\<rparr>"

definition node_of :: "string \<Rightarrow> string \<Rightarrow> string list \<Rightarrow> WorkflowNode" where
  "node_of i t cs =
    \<lparr>node_id = i, node_type = t, action = None, connections = Some cs, weight = None,
     node_permissions = None\<rparr>"

text \<open>A trigger \<open>A\<close> connected to \<open>B\<close>, which is connected to an undeclared \<open>C\<close>.\<close>

definition scenario_C :: "WorkflowNode list" where
  "scenario_C = [node_of ''A'' ''trigger'' [''B''], node_of ''B'' ''condition'' [''C'']]"

text \<open>A trigger and its successor, a cycle \<open>C\<close>, \<open>D\<close> apart from them, a lone node \<open>E\<close>.\<close>

definition nodes_island :: "WorkflowNode list" where
  "nodes_island =
    [node_of ''A'' ''trigger'' [''B''], node_of ''B'' ''action'' [],
     node_of ''C'' ''action'' [''D''], node_of ''D'' ''action'' [''C''],
     node_of ''E'' ''action'' []]"

definition validator_missing_nodes_off :: AutoFlowValidator where
  "validator_missing_nodes_off =
    new_AutoFlowValidator
      \<lparr>partial_rules = Some [(''graph/missing-nodes'', RuleOff)], partial_settings = None\<rparr>"

definition variable_of :: "string \<Rightarrow> VariableDefinition" where
  "variable_of n = \<lparr>var_name = n, var_type = ''custom'', var_scope = ''guild''\<rparr>"

text \<open>A complete workflow with one variable and no node list, and variants of it.\<close>

definition workflow_plain :: AutomaterWorkflow where
  "workflow_plain =
    \<lparr>wf_id = Some ''wf-plain'', wf_name = Some ''Plain'', wf_version = Some ''1.0.0'',
     wf_trigger = Some trigger_send_message, wf_nodes = None, wf_permissions = None,
     wf_variables = Some [variable_of ''counter'']\<rparr>"

definition workflow_no_version :: AutomaterWorkflow where
  "workflow_no_version = workflow_plain\<lparr>wf_version := None\<rparr>"

definition workflow_no_version_nodes :: AutomaterWorkflow where
  "workflow_no_version_nodes = workflow_plain\<lparr>wf_version := None, wf_nodes := Some []\<rparr>"

text \<open>A validator configured with a variable-name pattern that does not compile.\<close>

definition validator_bad_pattern :: AutoFlowValidator where
  "validator_bad_pattern =
    new_AutoFlowValidator
      \<lparr>partial_rules = None,
       partial_settings =
         Some \<lparr>rateLimits = None,
               naming = Some \<lparr>workflowIdPattern = ''^automation-[A-Za-z0-9]{15}$'',
                              nodeIdPattern = ''^[a-zA-Z][a-zA-Z0-9_-]*$'',
                              variableNamePattern = ''(''\<rparr>\<rparr>\<rparr>"

text \<open>
  A validator with the rule \<^verbatim>\<open>schema/required-fields\<close> switched off, and a workflow whose
  version is no SemVer.
\<close>

definition validator_required_off :: AutoFlowValidator where
  "validator_required_off =
    new_AutoFlowValidator
      \<lparr>partial_rules = Some [(''schema/required-fields'', RuleOff)], partial_settings = None\<rparr>"

definition workflow_bad_version :: AutomaterWorkflow where
  "workflow_bad_version = workflow_plain\<lparr>wf_version := Some ''abc'', wf_variables := None\<rparr>"

subsection \<open>Notions used to state the properties\<close>

text \<open>What identifies a diagnostic apart from its running id and its message.\<close>

definition issue_key :: "LintIssue \<Rightarrow> string \<times> string \<times> Location option" where
  "issue_key i = (ruleId i, errorCode i, location i)"

text \<open>The issue list of the result \<^verbatim>\<open>validateWorkflow\<close> returns.\<close>

definition returned_issues ::
  "regexp_constructor \<Rightarrow> AutoFlowValidator \<Rightarrow> AutomaterWorkflow \<Rightarrow> LintIssue list" where
  "returned_issues RegExp V workflow =
    (case fst (validateWorkflow RegExp V workflow) of
       Fulfilled res \<Rightarrow> res_issues res
     | Rejected e \<Rightarrow> [])"

text \<open>The dangling edges of a node list, in the order of the nodes and their connections.\<close>

definition dangling_edges :: "WorkflowNode list \<Rightarrow> (WorkflowNode \<times> string) list" where
  "dangling_edges nodes =
    concat (map (\<lambda>node. map (\<lambda>targetId. (node, targetId))
                          (filter (\<lambda>targetId. targetId \<notin> set (map node_id nodes))
                             (node_connections node))) nodes)"

text \<open>The node list with its dangling edges removed.\<close>

definition without_dangling :: "WorkflowNode list \<Rightarrow> WorkflowNode list" where
  "without_dangling nodes =
    map (\<lambda>node. node\<lparr>connections :=
                   Some (filter (\<lambda>targetId. targetId \<in> set (map node_id nodes))
                           (node_connections node))\<rparr>) nodes"

text \<open>
  The edges one node adds to the forward and to the reverse adjacency list when exactly
  the dangling ones are skipped.
\<close>

definition push_all :: "string list \<Rightarrow> adjacency \<Rightarrow> WorkflowNode \<Rightarrow> adjacency" where
  "push_all ids m node =
    foldl (\<lambda>m' targetId. Map_push m' (node_id node) targetId) m
      (filter (\<lambda>targetId. targetId \<in> set ids) (node_connections node))"

definition push_all_reverse :: "string list \<Rightarrow> adjacency \<Rightarrow> WorkflowNode \<Rightarrow> adjacency" where
  "push_all_reverse ids m node =
    foldl (\<lambda>m' targetId. Map_push m' targetId (node_id node)) m
      (filter (\<lambda>targetId. targetId \<in> set ids) (node_connections node))"

text \<open>A version that is present, not empty, and fails the SemVer pattern.\<close>

definition invalid_version :: "AutomaterWorkflow \<Rightarrow> bool" where
  "invalid_version workflow =
    (case wf_version workflow of None \<Rightarrow> False | Some v \<Rightarrow> v \<noteq> [] \<and> \<not> semverPattern_test v)"

abbreviation semver_issue :: "AutoFlowValidator \<Rightarrow> LintIssue" where
  "semver_issue V \<equiv>
    fst (createIssue V ''schema/semver'' C5511
           (Some ''Version must be valid SemVer (e.g., 1.2.3)'') (at_path ''version'') None)"

section \<open>Verification\<close>

subsection \<open>Permission inference\<close>

lemma action_send_message:
  "get_property ACTION_PERMISSION_MAPPINGS ''send_message'' = Own [''SEND_MESSAGES'', ''VIEW_CHANNEL'']"
  by (simp add: get_property_def ACTION_PERMISSION_MAPPINGS_def)

lemma trigger_send_message_mapping:
  "get_property TRIGGER_PERMISSION_MAPPINGS ''send_message'' = Own [''VIEW_CHANNEL'']"
  by (simp add: get_property_def TRIGGER_PERMISSION_MAPPINGS_def)

lemma sort_view_send:
  "sort [''VIEW_CHANNEL'', ''SEND_MESSAGES''] = [''SEND_MESSAGES'', ''VIEW_CHANNEL'']"
  by code_simp

text \<open>
  C7.  A workflow whose trigger has the event \<^verbatim>\<open>send_message\<close> and whose only node is an
  action node with the action \<^verbatim>\<open>send_message\<close>: \<^verbatim>\<open>detectRequiredPermissions\<close> returns
  exactly \<^verbatim>\<open>["SEND_MESSAGES", "VIEW_CHANNEL"]\<close>, whatever the other properties are.
\<close>

theorem detectRequiredPermissions_scenario_A:
  assumes "wf_trigger w = Some t" and "event t = Some ''send_message''"
    and "wf_nodes w = Some [n]" and "node_type n = ''action''"
    and "action n = Some ''send_message''"
  shows "detectRequiredPermissions w = Inr [''SEND_MESSAGES'', ''VIEW_CHANNEL'']"
  using assms
  by (simp add: detectRequiredPermissions_def trigger_permissions_def add_mapped_def
      hasTriggerPermissionMapping_def hasActionPermissionMapping_def has_property_def
      action_send_message trigger_send_message_mapping Set_add_all_def Set_add_def
      sort_view_send)

theorem detectRequiredPermissions_scenario_A_witness:
  "wf_trigger workflow_A = Some trigger_send_message
   \<and> event trigger_send_message = Some ''send_message''
   \<and> wf_nodes workflow_A = Some [action_node ''node-1'' ''send_message'']
   \<and> node_type (action_node ''node-1'' ''send_message'') = ''action''
   \<and> action (action_node ''node-1'' ''send_message'') = Some ''send_message''
   \<and> detectRequiredPermissions workflow_A = Inr [''SEND_MESSAGES'', ''VIEW_CHANNEL'']"
proof -
  have 1: "wf_trigger workflow_A = Some trigger_send_message"
    and 3: "wf_nodes workflow_A = Some [action_node ''node-1'' ''send_message'']"
    by (simp_all add: workflow_A_def workflow_of_def)
  have 2: "event trigger_send_message = Some ''send_message''"
    by (simp add: trigger_send_message_def)
  have 4: "node_type (action_node ''node-1'' ''send_message'') = ''action''"
    and 5: "action (action_node ''node-1'' ''send_message'') = Some ''send_message''"
    by (simp_all add: action_node_def)
  from detectRequiredPermissions_scenario_A [OF 1 2 3 4 5] 1 2 3 4 5 show ?thesis
    by simp
qed

subsection \<open>Pack aggregation\<close>

lemma set_Set_add_all: "set (Set_add_all s xs) = set s \<union> set xs"
  unfolding Set_add_all_def by (induction xs arbitrary: s) (auto simp: Set_add_def)

lemma distinct_Set_add_all: "distinct s \<Longrightarrow> distinct (Set_add_all s xs)"
  unfolding Set_add_all_def by (induction xs arbitrary: s) (auto simp: Set_add_def)

lemma sort_distinct_eq: "distinct xs \<Longrightarrow> sort xs = sorted_list_of_set (set xs)"
  by (simp add: sorted_list_of_set_sort_remdups distinct_remdups_id)

lemma aggregate_loop_Inr:
  "\<forall>a \<in> set ws. \<exists>ps. detectRequiredPermissions a = Inr ps \<Longrightarrow>
   aggregate_loop ws s =
     Inr (foldl (\<lambda>acc a. Set_add_all acc (projr (detectRequiredPermissions a))) s ws)"
  by (induction ws arbitrary: s) auto

lemma set_foldl_Set_add_all:
  "set (foldl (\<lambda>acc a. Set_add_all acc (f a)) s ws) = set s \<union> (\<Union>a \<in> set ws. set (f a))"
  by (induction ws arbitrary: s) (auto simp: set_Set_add_all)

lemma distinct_foldl_Set_add_all:
  "distinct s \<Longrightarrow> distinct (foldl (\<lambda>acc a. Set_add_all acc (f a)) s ws)"
  by (induction ws arbitrary: s) (auto simp: distinct_Set_add_all)

lemma aggregate_loop_Inl:
  "\<exists>a \<in> set ws. \<exists>e. detectRequiredPermissions a = Inl e \<Longrightarrow> \<exists>e. aggregate_loop ws s = Inl e"
  by (induction ws arbitrary: s) (auto split: sum.splits)

text \<open>
  C8.  When \<^verbatim>\<open>detectRequiredPermissions\<close> returns for every automation of the pack,
  \<^verbatim>\<open>aggregatePackPermissions\<close> returns the sorted list, without duplicates, of the union
  of what it returns for each; when it throws for one of them, so does
  \<^verbatim>\<open>aggregatePackPermissions\<close>; a missing or empty automation list gives the empty list.
\<close>

theorem aggregatePackPermissions_sorted_union:
  "((\<forall>a \<in> set (pack_automations pack). \<exists>ps. detectRequiredPermissions a = Inr ps) \<longrightarrow>
      aggregatePackPermissions pack =
        Inr (sorted_list_of_set
              (\<Union>a \<in> set (pack_automations pack). set (projr (detectRequiredPermissions a)))))
   \<and> ((\<exists>a \<in> set (pack_automations pack). \<exists>e. detectRequiredPermissions a = Inl e) \<longrightarrow>
      (\<exists>e. aggregatePackPermissions pack = Inl e))
   \<and> (automations pack = None \<or> automations pack = Some [] \<longrightarrow>
      aggregatePackPermissions pack = Inr [])"
proof (intro conjI impI)
  assume ok: "\<forall>a \<in> set (pack_automations pack). \<exists>ps. detectRequiredPermissions a = Inr ps"
  let ?all = "foldl (\<lambda>acc a. Set_add_all acc (projr (detectRequiredPermissions a))) []
                (pack_automations pack)"
  have "aggregatePackPermissions pack = Inr (sort ?all)"
    by (simp add: aggregatePackPermissions_def aggregate_loop_Inr[OF ok])
  moreover have "distinct ?all"
    by (rule distinct_foldl_Set_add_all) simp
  moreover have "set ?all =
      (\<Union>a \<in> set (pack_automations pack). set (projr (detectRequiredPermissions a)))"
    by (simp add: set_foldl_Set_add_all)
  ultimately show "aggregatePackPermissions pack =
        Inr (sorted_list_of_set
              (\<Union>a \<in> set (pack_automations pack). set (projr (detectRequiredPermissions a))))"
    by (simp add: sort_distinct_eq)
next
  assume "\<exists>a \<in> set (pack_automations pack). \<exists>e. detectRequiredPermissions a = Inl e"
  from aggregate_loop_Inl[OF this, of "[]"]
  show "\<exists>e. aggregatePackPermissions pack = Inl e"
    by (auto simp: aggregatePackPermissions_def)
next
  assume "automations pack = None \<or> automations pack = Some []"
  then show "aggregatePackPermissions pack = Inr []"
    by (auto simp: aggregatePackPermissions_def pack_automations_def)
qed

lemma action_ban_user:
  "get_property ACTION_PERMISSION_MAPPINGS ''ban_user'' = Own [''BAN_MEMBERS'']"
  by (simp add: get_property_def ACTION_PERMISSION_MAPPINGS_def)

lemma action_toString:
  "get_property ACTION_PERMISSION_MAPPINGS ''toString'' = Inherited ''toString''"
  by (simp add: get_property_def ACTION_PERMISSION_MAPPINGS_def Object_prototype_def)

lemma detect_workflow_A:
  "detectRequiredPermissions workflow_A = Inr [''SEND_MESSAGES'', ''VIEW_CHANNEL'']"
  by (simp add: workflow_A_def workflow_of_def action_node_def trigger_send_message_def
      detectRequiredPermissions_def trigger_permissions_def add_mapped_def
      hasTriggerPermissionMapping_def hasActionPermissionMapping_def has_property_def
      action_send_message trigger_send_message_mapping Set_add_all_def Set_add_def
      sort_view_send)

lemma sort_view_ban:
  "sort [''VIEW_CHANNEL'', ''BAN_MEMBERS''] = [''BAN_MEMBERS'', ''VIEW_CHANNEL'']"
  by code_simp

lemma detect_workflow_ban:
  "detectRequiredPermissions workflow_ban = Inr [''BAN_MEMBERS'', ''VIEW_CHANNEL'']"
  by (simp add: workflow_ban_def workflow_of_def action_node_def trigger_send_message_def
      detectRequiredPermissions_def trigger_permissions_def add_mapped_def
      hasTriggerPermissionMapping_def hasActionPermissionMapping_def has_property_def
      action_ban_user trigger_send_message_mapping Set_add_all_def Set_add_def
      sort_view_ban)

text \<open>
  An action named after a member of \<^verbatim>\<open>Object.prototype\<close> passes
  \<^verbatim>\<open>hasActionPermissionMapping\<close>, and the \<^verbatim>\<open>forEach\<close> on what the table gives throws.
\<close>

lemma detect_workflow_toString:
  "detectRequiredPermissions workflow_toString = Inl (TypeError ''forEach is not a function'')"
  by (simp add: workflow_toString_def workflow_of_def action_node_def trigger_send_message_def
      detectRequiredPermissions_def trigger_permissions_def add_mapped_def
      hasTriggerPermissionMapping_def hasActionPermissionMapping_def has_property_def
      action_toString trigger_send_message_mapping Set_add_all_def Set_add_def)

lemma sort_send_view_ban:
  "sort (remdups [''SEND_MESSAGES'', ''VIEW_CHANNEL'', ''BAN_MEMBERS'', ''VIEW_CHANNEL''])
     = [''BAN_MEMBERS'', ''SEND_MESSAGES'', ''VIEW_CHANNEL'']"
  by code_simp

theorem aggregatePackPermissions_sorted_union_witness:
  "aggregatePackPermissions (pack_of (Some [workflow_A, workflow_ban]))
     = Inr [''BAN_MEMBERS'', ''SEND_MESSAGES'', ''VIEW_CHANNEL'']
   \<and> (\<exists>e. aggregatePackPermissions (pack_of (Some [workflow_A, workflow_toString])) = Inl e)
   \<and> aggregatePackPermissions (pack_of None) = Inr []
   \<and> aggregatePackPermissions (pack_of (Some [])) = Inr []"
proof -
  let ?p = "pack_of (Some [workflow_A, workflow_ban])"
  have ok: "\<forall>a \<in> set (pack_automations ?p). \<exists>ps. detectRequiredPermissions a = Inr ps"
    by (simp add: pack_automations_def pack_of_def detect_workflow_A detect_workflow_ban)
  have U: "(\<Union>a \<in> set (pack_automations ?p). set (projr (detectRequiredPermissions a)))
           = set [''SEND_MESSAGES'', ''VIEW_CHANNEL'', ''BAN_MEMBERS'', ''VIEW_CHANNEL'']"
    by (auto simp: pack_automations_def pack_of_def detect_workflow_A detect_workflow_ban)
  from aggregatePackPermissions_sorted_union [of ?p] ok
  have "aggregatePackPermissions ?p =
        Inr (sorted_list_of_set
              (\<Union>a \<in> set (pack_automations ?p). set (projr (detectRequiredPermissions a))))"
    by blast
  then have 1: "aggregatePackPermissions ?p
                  = Inr [''BAN_MEMBERS'', ''SEND_MESSAGES'', ''VIEW_CHANNEL'']"
    by (simp only: U sorted_list_of_set_sort_remdups sort_send_view_ban)
  have 2: "\<exists>e. aggregatePackPermissions (pack_of (Some [workflow_A, workflow_toString])) = Inl e"
    using aggregatePackPermissions_sorted_union [of "pack_of (Some [workflow_A, workflow_toString])"]
    by (simp add: pack_automations_def pack_of_def detect_workflow_toString)
  have 3: "aggregatePackPermissions (pack_of None) = Inr []"
    using aggregatePackPermissions_sorted_union [of "pack_of None"]
    by (simp add: pack_of_def)
  have 4: "aggregatePackPermissions (pack_of (Some [])) = Inr []"
    using aggregatePackPermissions_sorted_union [of "pack_of (Some [])"]
    by (simp add: pack_of_def)
  from 1 2 3 4 show ?thesis by blast
qed

subsection \<open>Permission severity\<close>

text \<open>What holds of the fallback: a name that is neither a key nor inherited is safe.\<close>

lemma getPermissionSeverity_unknown:
  "map_of PERMISSION_SEVERITY p = None \<Longrightarrow> p \<notin> set Object_prototype \<Longrightarrow>
   getPermissionSeverity p = Own Safe"
  by (simp add: getPermissionSeverity_def get_property_def)

lemma permission_weight_unknown:
  "map_of PERMISSION_SEVERITY p = None \<Longrightarrow> p \<notin> set Object_prototype \<Longrightarrow>
   permission_weight [p] = 1"
  by (simp add: permission_weight_def getPermissionSeverity_unknown)

lemma getDangerousPermissions_in_table:
  "getDangerousPermissions pack = Inr ps \<Longrightarrow> p \<in> set ps \<Longrightarrow>
   map_of PERMISSION_SEVERITY p = Some Dangerous"
  by (auto simp: getDangerousPermissions_def getPermissionSeverity_def get_property_def
           split: sum.splits option.splits if_splits)

text \<open>
  C10.  \<^verbatim>\<open>toString\<close> is not a key of \<^verbatim>\<open>PERMISSION_SEVERITY\<close>, and
  \<^verbatim>\<open>getPermissionSeverity('toString')\<close> is not \<^verbatim>\<open>'safe'\<close>: it is the function inherited
  from \<^verbatim>\<open>Object.prototype\<close>, which the \<^verbatim>\<open>switch\<close> of \<^verbatim>\<open>calculatePackPermissionWeight\<close>
  would score 0.
\<close>

theorem getPermissionSeverity_inherited:
  "map_of PERMISSION_SEVERITY ''toString'' = None
   \<and> getPermissionSeverity ''toString'' = Inherited ''toString''
   \<and> getPermissionSeverity ''toString'' \<noteq> Own Safe
   \<and> permission_weight [''toString''] = 0"
  by (simp add: getPermissionSeverity_def get_property_def PERMISSION_SEVERITY_def
      Object_prototype_def permission_weight_def)

subsection \<open>Issues and the rule table\<close>

lemma config_createIssue [simp]: "config (snd (createIssue V r c m l s)) = config V"
  by (simp add: createIssue_def Let_def)

lemma isRuleEnabled_config: "config V = config V' \<Longrightarrow> isRuleEnabled V r = isRuleEnabled V' r"
  by (simp add: isRuleEnabled_def)

lemma isRuleEnabled_createIssue [simp]:
  "isRuleEnabled (snd (createIssue V r c m l s)) r' = isRuleEnabled V r'"
  by (rule isRuleEnabled_config) simp

lemma issue_key_createIssue:
  "issue_key (fst (createIssue V r c m l s)) =
     (r, family_name (cat_family (ERROR_CATALOG c)) @ ''-'' @ code_number c, l)"
  by (simp add: issue_key_def createIssue_def Let_def)

lemma ruleId_createIssue [simp]: "ruleId (fst (createIssue V r c m l s)) = r"
  by (simp add: createIssue_def Let_def)

lemma location_createIssue [simp]: "location (fst (createIssue V r c m l s)) = l"
  by (simp add: createIssue_def Let_def)

lemma severity_createIssue [simp]:
  "severity (fst (createIssue V r c m l s)) = cat_severity (ERROR_CATALOG c)"
  by (simp add: createIssue_def Let_def)

lemma fst_push_issue:
  "fst (push_issue acc r c m l s) = fst acc @ [fst (createIssue (snd acc) r c m l s)]"
  by (simp add: push_issue_def split_beta)

lemma snd_push_issue: "snd (push_issue acc r c m l s) = snd (createIssue (snd acc) r c m l s)"
  by (simp add: push_issue_def split_beta)

lemma isRuleEnabled_push_issue [simp]:
  "isRuleEnabled (snd (push_issue acc r c m l s)) r' = isRuleEnabled (snd acc) r'"
  by (simp add: snd_push_issue)

subsection \<open>Graph integrity: building the adjacency lists\<close>

lemma connect_targets_enabled [simp]:
  "isRuleEnabled (graph_validator (connect_targets ids n cs g)) r
     = isRuleEnabled (graph_validator g) r"
  by (induction cs arbitrary: g) (auto simp: split_beta)

lemma connect_targets_adjacency:
  "isRuleEnabled (graph_validator g) ''graph/missing-nodes'' \<Longrightarrow>
   adjacencyList (connect_targets ids n cs g)
     = foldl (\<lambda>m t. Map_push m (node_id n) t) (adjacencyList g) (filter (\<lambda>t. t \<in> set ids) cs)"
  by (induction cs arbitrary: g) (auto simp: split_beta)

lemma connect_targets_reverse:
  "isRuleEnabled (graph_validator g) ''graph/missing-nodes'' \<Longrightarrow>
   reverseAdjacencyList (connect_targets ids n cs g)
     = foldl (\<lambda>m t. Map_push m t (node_id n)) (reverseAdjacencyList g)
         (filter (\<lambda>t. t \<in> set ids) cs)"
  by (induction cs arbitrary: g) (auto simp: split_beta)

lemma connect_targets_issues:
  "isRuleEnabled (graph_validator g) ''graph/missing-nodes'' \<Longrightarrow>
   map issue_key (graph_issues (connect_targets ids n cs g))
     = map issue_key (graph_issues g) @
       map (\<lambda>t. (''graph/missing-nodes'', ''AUT-3311'', at_node (node_id n)))
           (filter (\<lambda>t. t \<notin> set ids) cs)"
  by (induction cs arbitrary: g) (auto simp: split_beta issue_key_createIssue)

lemma build_connections_enabled [simp]:
  "isRuleEnabled (graph_validator (build_connections ids ns g)) r
     = isRuleEnabled (graph_validator g) r"
  by (induction ns arbitrary: g) auto

lemma build_connections_adjacency:
  "isRuleEnabled (graph_validator g) ''graph/missing-nodes'' \<Longrightarrow>
   adjacencyList (build_connections ids ns g) = foldl (push_all ids) (adjacencyList g) ns"
  by (induction ns arbitrary: g) (auto simp: connect_targets_adjacency push_all_def)

lemma build_connections_reverse:
  "isRuleEnabled (graph_validator g) ''graph/missing-nodes'' \<Longrightarrow>
   reverseAdjacencyList (build_connections ids ns g)
     = foldl (push_all_reverse ids) (reverseAdjacencyList g) ns"
  by (induction ns arbitrary: g) (auto simp: connect_targets_reverse push_all_reverse_def)

lemma build_connections_issues:
  "isRuleEnabled (graph_validator g) ''graph/missing-nodes'' \<Longrightarrow>
   map issue_key (graph_issues (build_connections ids ns g))
     = map issue_key (graph_issues g) @
       concat (map (\<lambda>n. map (\<lambda>t. (''graph/missing-nodes'', ''AUT-3311'', at_node (node_id n)))
                          (filter (\<lambda>t. t \<notin> set ids) (node_connections n))) ns)"
  by (induction ns arbitrary: g) (auto simp: connect_targets_issues)

lemma connect_targets_rule:
  "set (graph_issues (connect_targets ids n cs g))
     \<subseteq> set (graph_issues g) \<union> {i. ruleId i = ''graph/missing-nodes''}"
proof (induction cs arbitrary: g)
  case Nil
  show ?case by simp
next
  case (Cons t cs)
  show ?case
  proof (cases "t \<notin> set ids \<and> isRuleEnabled (graph_validator g) ''graph/missing-nodes''")
    case True
    then show ?thesis
      using Cons.IH[of "g\<lparr>graph_issues := graph_issues g @ [fst (createIssue (graph_validator g) ''graph/missing-nodes'' C3311
                        (Some (''Node '' @ quoted (node_id n) @
                               '' connects to non-existent node '' @ quoted t))
                        (at_node (node_id n)) None)], graph_validator := snd (createIssue (graph_validator g) ''graph/missing-nodes'' C3311
                        (Some (''Node '' @ quoted (node_id n) @
                               '' connects to non-existent node '' @ quoted t))
                        (at_node (node_id n)) None)\<rparr>"]
      by (auto simp: split_beta)
  next
    case False
    then show ?thesis
      using Cons.IH[of "g\<lparr>adjacencyList := Map_push (adjacencyList g) (node_id n) t,
            reverseAdjacencyList := Map_push (reverseAdjacencyList g) t (node_id n)\<rparr>"]
      by auto
  qed
qed

lemma build_connections_rule:
  "set (graph_issues (build_connections ids ns g))
     \<subseteq> set (graph_issues g) \<union> {i. ruleId i = ''graph/missing-nodes''}"
proof (induction ns arbitrary: g)
  case Nil
  show ?case by simp
next
  case (Cons n ns)
  from Cons.IH[of "connect_targets ids n (node_connections n) g"]
    connect_targets_rule[of ids n "node_connections n" g]
  show ?case by auto
qed

lemma build_graph_rule:
  "i \<in> set (graph_issues (build_graph V nodes)) \<Longrightarrow> ruleId i = ''graph/missing-nodes''"
  using build_connections_rule[of "map node_id nodes" nodes "\<lparr>graph_issues = [], graph_validator = V,
       adjacencyList = initialize nodes, reverseAdjacencyList = initialize nodes\<rparr>"]
  by (auto simp: build_graph_def)

lemma dfs_contains: "set pending \<union> set reachable \<subseteq> set (dfs adj pending reachable)"
  by (induction adj pending reachable rule: dfs.induct) (auto simp: Set_add_def)

lemma Map_get_or_empty_push:
  "t \<noteq> k \<Longrightarrow> Map_get_or_empty (Map_push m k v) t = Map_get_or_empty m t"
  by (simp add: Map_get_or_empty_def Map_push_def update_conv' split: option.splits)

lemma connect_targets_reverse_other:
  "t \<notin> set cs \<Longrightarrow>
   Map_get_or_empty (reverseAdjacencyList (connect_targets ids n cs g)) t
     = Map_get_or_empty (reverseAdjacencyList g) t"
  by (induction cs arbitrary: g) (auto simp: split_beta Map_get_or_empty_push)

lemma build_connections_reverse_other:
  "\<forall>m \<in> set ns. t \<notin> set (node_connections m) \<Longrightarrow>
   Map_get_or_empty (reverseAdjacencyList (build_connections ids ns g)) t
     = Map_get_or_empty (reverseAdjacencyList g) t"
  by (induction ns arbitrary: g) (auto simp: connect_targets_reverse_other)

lemma Map_get_or_empty_update_empty:
  "Map_get_or_empty m t = [] \<Longrightarrow> Map_get_or_empty (AList.update k [] m) t = []"
  by (simp add: Map_get_or_empty_def update_conv')

lemma initialize_values:
  "Map_get_or_empty m t = [] \<Longrightarrow>
   Map_get_or_empty (foldl (\<lambda>m node. AList.update (node_id node) [] m) m nodes) t = []"
  by (induction nodes arbitrary: m) (simp_all add: Map_get_or_empty_update_empty)

lemma Map_get_or_empty_initialize: "Map_get_or_empty (initialize nodes) t = []"
  unfolding initialize_def by (rule initialize_values) (simp add: Map_get_or_empty_def)

lemma no_incoming_is_entry:
  assumes "\<forall>m \<in> set nodes. node_id n \<notin> set (node_connections m)"
  shows "is_entry (reverseAdjacencyList (build_graph V nodes)) n"
  using build_connections_reverse_other[OF assms, of "map node_id nodes"]
  by (simp add: is_entry_def build_graph_def Map_get_or_empty_initialize)

lemma at_node_inject: "at_node a = at_node b \<longleftrightarrow> a = b"
  by (simp add: at_node_def)

subsection \<open>Graph integrity: the issues of a run\<close>

lemma unreachable_loop_issues:
  "\<exists>new. fst (unreachable_loop us acc) = fst acc @ new \<and>
     (\<forall>i \<in> set new. ruleId i = ''graph/unreachable-nodes'' \<and>
                     (\<exists>u \<in> set us. location i = at_node (node_id u)))"
proof (induction us arbitrary: acc)
  case Nil
  then show ?case by simp
next
  case (Cons u us)
  let ?acc' = "push_issue acc ''graph/unreachable-nodes'' C3310
         (Some (''Node '' @ quoted (node_id u) @ '' is unreachable from entry points''))
         (at_node (node_id u)) None"
  from Cons.IH[of ?acc'] obtain new where
    new: "fst (unreachable_loop us ?acc') = fst ?acc' @ new"
      "\<forall>i \<in> set new. ruleId i = ''graph/unreachable-nodes'' \<and>
                     (\<exists>u \<in> set us. location i = at_node (node_id u))"
    by blast
  show ?case
    by (rule exI[of _ "fst (createIssue (snd acc) ''graph/unreachable-nodes'' C3310
         (Some (''Node '' @ quoted (node_id u) @ '' is unreachable from entry points''))
         (at_node (node_id u)) None) # new"])
       (use new in \<open>auto simp: fst_push_issue\<close>)
qed


lemma check_entry_points_issues:
  "\<exists>e1. fst (check_entry_points en acc) = fst acc @ e1 \<and>
        (\<forall>i \<in> set e1. ruleId i = ''graph/entry-points'')"
  by (simp add: check_entry_points_def fst_push_issue)

lemma check_unreachable_issues:
  "\<exists>new. fst (check_unreachable adj nodes en acc) = fst acc @ new \<and>
     (\<forall>i \<in> set new. ruleId i = ''graph/unreachable-nodes'' \<and>
        (\<exists>u \<in> set nodes. node_id u \<notin> set (dfs adj (map node_id en) []) \<and>
                          location i = at_node (node_id u)))"
proof (cases "isRuleEnabled (snd acc) ''graph/unreachable-nodes''")
  case True
  let ?un = "filter (\<lambda>node. node_id node \<notin> set (dfs adj (map node_id en) [])) nodes"
  from unreachable_loop_issues[of ?un acc] obtain new where
    new: "fst (unreachable_loop ?un acc) = fst acc @ new"
      "\<forall>i \<in> set new. ruleId i = ''graph/unreachable-nodes'' \<and>
                     (\<exists>u \<in> set ?un. location i = at_node (node_id u))"
    by blast
  from new(2) have "\<forall>i \<in> set new. ruleId i = ''graph/unreachable-nodes'' \<and>
        (\<exists>u \<in> set nodes. node_id u \<notin> set (dfs adj (map node_id en) []) \<and>
                          location i = at_node (node_id u))"
    by fastforce
  with new(1) True show ?thesis
    by (auto simp: check_unreachable_def)
next
  case False
  then show ?thesis by (simp add: check_unreachable_def)
qed

lemma validateGraphIntegrity_issues:
  assumes "nodes \<noteq> []"
  shows "\<exists>extra. fst (validateGraphIntegrity V nodes) = graph_issues (build_graph V nodes) @ extra \<and>
     (\<forall>i \<in> set extra. ruleId i = ''graph/entry-points'' \<or>
         (ruleId i = ''graph/unreachable-nodes'' \<and>
          (\<exists>u \<in> set nodes.
               node_id u \<notin> set (dfs (adjacencyList (build_graph V nodes))
                                    (map node_id (filter (is_entry (reverseAdjacencyList (build_graph V nodes))) nodes)) [])
               \<and> location i = at_node (node_id u))))"
proof -
  let ?g = "build_graph V nodes"
  let ?entry = "filter (is_entry (reverseAdjacencyList ?g)) nodes"
  let ?acc = "(graph_issues ?g, graph_validator ?g)"
  let ?acc1 = "check_entry_points ?entry ?acc"
  let ?reach = "dfs (adjacencyList ?g) (map node_id ?entry) []"
  from check_entry_points_issues[of ?entry ?acc]
  obtain e1 where e1: "fst ?acc1 = graph_issues ?g @ e1" "\<forall>i \<in> set e1. ruleId i = ''graph/entry-points''"
    by auto
  from check_unreachable_issues[of "adjacencyList ?g" nodes ?entry ?acc1] obtain new where
    new: "fst (check_unreachable (adjacencyList ?g) nodes ?entry ?acc1) = fst ?acc1 @ new"
      "\<forall>i \<in> set new. ruleId i = ''graph/unreachable-nodes'' \<and>
        (\<exists>u \<in> set nodes. node_id u \<notin> set ?reach \<and> location i = at_node (node_id u))"
    by blast
  have "fst (validateGraphIntegrity V nodes) = graph_issues ?g @ (e1 @ new)"
    using assms new(1) e1(1) by (simp add: validateGraphIntegrity_def Let_def)
  moreover have "\<forall>i \<in> set (e1 @ new). ruleId i = ''graph/entry-points'' \<or>
         (ruleId i = ''graph/unreachable-nodes'' \<and>
          (\<exists>u \<in> set nodes. node_id u \<notin> set ?reach \<and> location i = at_node (node_id u)))"
    using e1(2) new(2) by auto
  ultimately show ?thesis by blast
qed


lemma default_rules: "rules (config default_validator) = DEFAULT_rules"
  by (simp add: default_validator_def new_AutoFlowValidator_def AList.merge_def)

lemma enabled_missing_default: "isRuleEnabled default_validator ''graph/missing-nodes''"
  by (simp add: isRuleEnabled_def default_rules get_property_def DEFAULT_rules_def)

lemma enabled_entry_default: "isRuleEnabled default_validator ''graph/entry-points''"
  by (simp add: isRuleEnabled_def default_rules get_property_def DEFAULT_rules_def)

lemma enabled_unreachable_default: "isRuleEnabled default_validator ''graph/unreachable-nodes''"
  by (simp add: isRuleEnabled_def default_rules get_property_def DEFAULT_rules_def)

lemma disabled_missing_off:
  "\<not> isRuleEnabled validator_missing_nodes_off ''graph/missing-nodes''"
  by (simp add: isRuleEnabled_def validator_missing_nodes_off_def new_AutoFlowValidator_def
      AList.merge_def get_property_def DEFAULT_rules_def update_conv')

lemma isRuleEnabled_nextIssueId [simp]:
  "isRuleEnabled (V\<lparr>nextIssueId := k\<rparr>) r = isRuleEnabled V r"
  by (simp add: isRuleEnabled_def)

text \<open>
  C6.  A node that is an entry point, being of type \<^verbatim>\<open>trigger\<close> or the target of no
  connection of any node of the list, never gets a \<^verbatim>\<open>graph/unreachable-nodes\<close> issue.
\<close>

theorem entry_points_never_unreachable:
  assumes "n \<in> set nodes"
    and "node_type n = ''trigger'' \<or> (\<forall>m \<in> set nodes. node_id n \<notin> set (node_connections m))"
  shows "\<not> (\<exists>i \<in> set (fst (validateGraphIntegrity V nodes)).
               ruleId i = ''graph/unreachable-nodes'' \<and> location i = at_node (node_id n))"
proof
  assume "\<exists>i \<in> set (fst (validateGraphIntegrity V nodes)).
               ruleId i = ''graph/unreachable-nodes'' \<and> location i = at_node (node_id n)"
  then obtain i where i: "i \<in> set (fst (validateGraphIntegrity V nodes))"
    "ruleId i = ''graph/unreachable-nodes''" "location i = at_node (node_id n)"
    by blast
  let ?g = "build_graph V nodes"
  let ?entry = "filter (is_entry (reverseAdjacencyList ?g)) nodes"
  let ?reach = "dfs (adjacencyList ?g) (map node_id ?entry) []"
  from assms(1) have ne: "nodes \<noteq> []" by auto
  from validateGraphIntegrity_issues[OF ne, of V] obtain extra where
    extra: "fst (validateGraphIntegrity V nodes) = graph_issues ?g @ extra"
      "\<forall>i \<in> set extra. ruleId i = ''graph/entry-points'' \<or>
         (ruleId i = ''graph/unreachable-nodes'' \<and>
          (\<exists>u \<in> set nodes. node_id u \<notin> set ?reach \<and> location i = at_node (node_id u)))"
    by blast
  have "i \<notin> set (graph_issues ?g)"
    using build_graph_rule[of i V nodes] i(2) by auto
  with i(1) extra(1) have "i \<in> set extra" by simp
  with extra(2) i(2) obtain u where u: "u \<in> set nodes" "node_id u \<notin> set ?reach"
      "location i = at_node (node_id u)"
    by auto
  from u(3) i(3) have same: "node_id u = node_id n" by (simp add: at_node_inject)
  have "is_entry (reverseAdjacencyList ?g) n"
    using assms(2) no_incoming_is_entry[of nodes n V] by (auto simp: is_entry_def)
  with assms(1) have "node_id n \<in> set (map node_id ?entry)" by simp
  with dfs_contains[of "map node_id ?entry" "[]" "adjacencyList ?g"] have "node_id n \<in> set ?reach"
    by blast
  with u(2) same show False by simp
qed

lemma island_issues:
  "map issue_key (fst (validateGraphIntegrity default_validator nodes_island))
     = [(''graph/unreachable-nodes'', ''AUT-3310'', at_node ''C''),
        (''graph/unreachable-nodes'', ''AUT-3310'', at_node ''D'')]"
  by (simp add: validateGraphIntegrity_def nodes_island_def node_of_def build_graph_def
      node_connections_def initialize_def Map_push_def Map_get_or_empty_def is_entry_def
      check_entry_points_def check_unreachable_def enabled_entry_default
      enabled_unreachable_default Set_add_def fst_push_issue snd_push_issue
      issue_key_createIssue)

theorem entry_points_never_unreachable_witness:
  "\<not> (\<exists>i \<in> set (fst (validateGraphIntegrity default_validator nodes_island)).
         ruleId i = ''graph/unreachable-nodes'' \<and> location i = at_node ''A'')
   \<and> \<not> (\<exists>i \<in> set (fst (validateGraphIntegrity default_validator nodes_island)).
         ruleId i = ''graph/unreachable-nodes'' \<and> location i = at_node ''E'')
   \<and> map issue_key (fst (validateGraphIntegrity default_validator nodes_island))
        = [(''graph/unreachable-nodes'', ''AUT-3310'', at_node ''C''),
           (''graph/unreachable-nodes'', ''AUT-3310'', at_node ''D'')]"
proof -
  have A: "node_of ''A'' ''trigger'' [''B''] \<in> set nodes_island"
    and E: "node_of ''E'' ''action'' [] \<in> set nodes_island"
    by (simp_all add: nodes_island_def)
  have trigger: "node_type (node_of ''A'' ''trigger'' [''B'']) = ''trigger''"
    by (simp add: node_of_def)
  have lone: "\<forall>m \<in> set nodes_island.
                node_id (node_of ''E'' ''action'' []) \<notin> set (node_connections m)"
    by (simp add: nodes_island_def node_of_def node_connections_def)
  from entry_points_never_unreachable [OF A, of default_validator] trigger
  have 1: "\<not> (\<exists>i \<in> set (fst (validateGraphIntegrity default_validator nodes_island)).
         ruleId i = ''graph/unreachable-nodes'' \<and> location i = at_node ''A'')"
    by (simp add: node_of_def)
  from entry_points_never_unreachable [OF E, of default_validator] lone
  have 2: "\<not> (\<exists>i \<in> set (fst (validateGraphIntegrity default_validator nodes_island)).
         ruleId i = ''graph/unreachable-nodes'' \<and> location i = at_node ''E'')"
    by (simp add: node_of_def)
  from 1 2 island_issues show ?thesis by blast
qed

subsection \<open>Graph integrity: dangling edges\<close>

lemma set_update_subset: "set (AList.update k v m) \<subseteq> insert (k, v) (set m)"
  by (induction m) auto

lemma snd_Map_push:
  "(\<Union>(k', vs) \<in> set (Map_push m k v). set vs) \<subseteq> insert v (\<Union>(k', vs) \<in> set m. set vs)"
proof (cases "map_of m k")
  case None
  then show ?thesis by (auto simp: Map_push_def)
next
  case (Some vs)
  then have "(k, vs) \<in> set m" by (rule map_of_SomeD)
  with Some set_update_subset[of k "vs @ [v]" m] show ?thesis
    by (fastforce simp: Map_push_def)
qed

lemma keys_Map_push: "fst ` set (Map_push m k v) = fst ` set m"
proof (cases "map_of m k")
  case None
  then show ?thesis by (simp add: Map_push_def)
next
  case (Some vs)
  then have "k \<in> fst ` set m" by (meson domI dom_map_of_conv_image_fst[THEN equalityD1, THEN subsetD])
  with Some show ?thesis by (auto simp: Map_push_def dom_update)
qed

lemma push_all_targets:
  "(\<Union>(k, vs) \<in> set (push_all ids m n). set vs) \<subseteq> (\<Union>(k, vs) \<in> set m. set vs) \<union> set ids"
proof -
  have "(\<Union>(k, vs) \<in> set (foldl (\<lambda>m' t. Map_push m' (node_id n) t) m cs). set vs)
          \<subseteq> (\<Union>(k, vs) \<in> set m. set vs) \<union> set cs" for cs
  proof (induction cs arbitrary: m)
    case Nil
    show ?case by simp
  next
    case (Cons c cs)
    from Cons.IH[of "Map_push m (node_id n) c"] snd_Map_push[of m "node_id n" c]
    show ?case by auto
  qed
  from this[of "filter (\<lambda>t. t \<in> set ids) (node_connections n)"]
  show ?thesis by (auto simp: push_all_def)
qed

lemma foldl_push_all_targets:
  "(\<Union>(k, vs) \<in> set (foldl (push_all ids) m ns). set vs) \<subseteq> (\<Union>(k, vs) \<in> set m. set vs) \<union> set ids"
proof (induction ns arbitrary: m)
  case Nil
  show ?case by simp
next
  case (Cons n ns)
  from Cons.IH[of "push_all ids m n"] push_all_targets[of ids m n]
  show ?case by auto
qed

lemma push_all_reverse_keys: "fst ` set (push_all_reverse ids m n) = fst ` set m"
proof -
  have "fst ` set (foldl (\<lambda>m' t. Map_push m' t (node_id n)) m cs) = fst ` set m" for cs
    by (induction cs arbitrary: m) (simp_all add: keys_Map_push)
  then show ?thesis by (simp add: push_all_reverse_def)
qed

lemma foldl_push_all_reverse_keys: "fst ` set (foldl (push_all_reverse ids) m ns) = fst ` set m"
  by (induction ns arbitrary: m) (simp_all add: push_all_reverse_keys)

lemma initialize_keys: "fst ` set (initialize nodes) = set (map node_id nodes)"
proof -
  have "fst ` set (foldl (\<lambda>m node. AList.update (node_id node) [] m) m nodes)
          = fst ` set m \<union> node_id ` set nodes" for m
    by (induction nodes arbitrary: m) (auto simp: dom_update)
  from this[of "[]"] show ?thesis by (simp add: initialize_def)
qed

lemma initialize_targets: "(\<Union>(k, vs) \<in> set (initialize nodes). set vs) = {}"
proof -
  have "(\<Union>(k, vs) \<in> set m. set vs) = {} \<Longrightarrow>
        (\<Union>(k, vs) \<in> set (foldl (\<lambda>m node. AList.update (node_id node) [] m) m nodes). set vs) = {}" for m
  proof (induction nodes arbitrary: m)
    case Nil
    then show ?case by simp
  next
    case (Cons n ns)
    have "(\<Union>(k, vs) \<in> set (AList.update (node_id n) [] m). set vs) = {}"
      using Cons.prems set_update_subset[of "node_id n" "[]" m] by fastforce
    from Cons.IH[OF this] show ?case by simp
  qed
  from this[of "[]"] show ?thesis by (simp add: initialize_def)
qed

lemma node_id_without_dangling: "map node_id (without_dangling nodes) = map node_id nodes"
  by (simp add: without_dangling_def comp_def)

lemma initialize_ids: "initialize nodes = foldl (\<lambda>m k. AList.update k [] m) [] (map node_id nodes)"
  by (simp add: initialize_def foldl_map)

lemma initialize_without_dangling: "initialize (without_dangling nodes) = initialize nodes"
  by (simp only: initialize_ids node_id_without_dangling)

lemma foldl_push_all_pruned:
  "foldl (push_all ids) m
     (map (\<lambda>node. node\<lparr>connections := Some (filter (\<lambda>t. t \<in> set ids) (node_connections node))\<rparr>) ns)
   = foldl (push_all ids) m ns"
  by (induction ns arbitrary: m) (simp_all add: push_all_def node_connections_def)

lemma foldl_push_all_reverse_pruned:
  "foldl (push_all_reverse ids) m
     (map (\<lambda>node. node\<lparr>connections := Some (filter (\<lambda>t. t \<in> set ids) (node_connections node))\<rparr>) ns)
   = foldl (push_all_reverse ids) m ns"
  by (induction ns arbitrary: m) (simp_all add: push_all_reverse_def node_connections_def)

lemma build_graph_adjacency:
  "isRuleEnabled V ''graph/missing-nodes'' \<Longrightarrow>
   adjacencyList (build_graph V nodes) = foldl (push_all (map node_id nodes)) (initialize nodes) nodes"
  by (simp add: build_graph_def build_connections_adjacency)

lemma build_graph_reverse:
  "isRuleEnabled V ''graph/missing-nodes'' \<Longrightarrow>
   reverseAdjacencyList (build_graph V nodes)
     = foldl (push_all_reverse (map node_id nodes)) (initialize nodes) nodes"
  by (simp add: build_graph_def build_connections_reverse)

lemma build_graph_issues:
  "isRuleEnabled V ''graph/missing-nodes'' \<Longrightarrow>
   map issue_key (graph_issues (build_graph V nodes))
     = map (\<lambda>(n, t). (''graph/missing-nodes'', ''AUT-3311'', at_node (node_id n)))
           (dangling_edges nodes)"
  by (simp add: build_graph_def build_connections_issues dangling_edges_def map_concat comp_def)

lemma missing_nodes_issues:
  "filter (\<lambda>i. ruleId i = ''graph/missing-nodes'') (fst (validateGraphIntegrity V nodes))
     = graph_issues (build_graph V nodes)"
proof (cases "nodes = []")
  case True
  then show ?thesis by (simp add: validateGraphIntegrity_def build_graph_def)
next
  case False
  from validateGraphIntegrity_issues[OF False, of V] obtain extra where
    extra: "fst (validateGraphIntegrity V nodes) = graph_issues (build_graph V nodes) @ extra"
      "\<forall>i \<in> set extra. ruleId i = ''graph/entry-points'' \<or> ruleId i = ''graph/unreachable-nodes''"
    by blast
  have "filter (\<lambda>i. ruleId i = ''graph/missing-nodes'') (graph_issues (build_graph V nodes))
          = graph_issues (build_graph V nodes)"
    using build_graph_rule[of _ V nodes] by (simp add: filter_id_conv)
  moreover have "filter (\<lambda>i. ruleId i = ''graph/missing-nodes'') extra = []"
    using extra(2) by (auto simp: filter_empty_conv)
  ultimately show ?thesis using extra(1) by simp
qed


text \<open>
  C5, as the code has it.  When the rule \<^verbatim>\<open>graph/missing-nodes\<close> is enabled: the issues
  of that rule are, in order, one per dangling edge, with code \<^verbatim>\<open>AUT-3311\<close> and located
  at the edge's source node; no undeclared id stands in a forward adjacency list or is a
  key of the reverse one; and both lists are those of the node list without its dangling
  edges, so that entry points and reachability are computed from the same graph.
\<close>

theorem missing_nodes_when_enabled:
  assumes "isRuleEnabled V ''graph/missing-nodes''"
  shows "map issue_key (filter (\<lambda>i. ruleId i = ''graph/missing-nodes'')
                          (fst (validateGraphIntegrity V nodes)))
           = map (\<lambda>(n, t). (''graph/missing-nodes'', ''AUT-3311'', at_node (node_id n)))
                 (dangling_edges nodes)
         \<and> (\<Union>(k, vs) \<in> set (adjacencyList (build_graph V nodes)). set vs)
             \<subseteq> set (map node_id nodes)
         \<and> fst ` set (reverseAdjacencyList (build_graph V nodes)) = set (map node_id nodes)
         \<and> adjacencyList (build_graph V nodes)
             = adjacencyList (build_graph V (without_dangling nodes))
         \<and> reverseAdjacencyList (build_graph V nodes)
             = reverseAdjacencyList (build_graph V (without_dangling nodes))"
proof (intro conjI)
  show "map issue_key (filter (\<lambda>i. ruleId i = ''graph/missing-nodes'')
                          (fst (validateGraphIntegrity V nodes)))
           = map (\<lambda>(n, t). (''graph/missing-nodes'', ''AUT-3311'', at_node (node_id n)))
                 (dangling_edges nodes)"
    by (simp only: missing_nodes_issues build_graph_issues[OF assms])
  show "(\<Union>(k, vs) \<in> set (adjacencyList (build_graph V nodes)). set vs) \<subseteq> set (map node_id nodes)"
    using foldl_push_all_targets[of "map node_id nodes" "initialize nodes" nodes]
    by (simp only: build_graph_adjacency[OF assms] initialize_targets) simp
  show "fst ` set (reverseAdjacencyList (build_graph V nodes)) = set (map node_id nodes)"
    by (simp only: build_graph_reverse[OF assms] foldl_push_all_reverse_keys initialize_keys)
  show "adjacencyList (build_graph V nodes) = adjacencyList (build_graph V (without_dangling nodes))"
    unfolding build_graph_adjacency[OF assms] initialize_without_dangling node_id_without_dangling
    by (simp only: without_dangling_def foldl_push_all_pruned)
  show "reverseAdjacencyList (build_graph V nodes)
          = reverseAdjacencyList (build_graph V (without_dangling nodes))"
    unfolding build_graph_reverse[OF assms] initialize_without_dangling node_id_without_dangling
    by (simp only: without_dangling_def foldl_push_all_reverse_pruned)
qed

lemma dangling_scenario_C:
  "dangling_edges scenario_C = [(node_of ''B'' ''condition'' [''C''], ''C'')]"
  by (simp add: dangling_edges_def scenario_C_def node_of_def node_connections_def)

lemma build_graph_scenario_C_pruned:
  "adjacencyList (build_graph default_validator (without_dangling scenario_C))
     = [(''A'', [''B'']), (''B'', [])]
   \<and> reverseAdjacencyList (build_graph default_validator (without_dangling scenario_C))
     = [(''A'', []), (''B'', [''A''])]"
  by (simp add: build_graph_def without_dangling_def scenario_C_def node_of_def
      node_connections_def initialize_def Map_push_def)

theorem missing_nodes_when_enabled_witness:
  "isRuleEnabled default_validator ''graph/missing-nodes''
   \<and> map issue_key (filter (\<lambda>i. ruleId i = ''graph/missing-nodes'')
                       (fst (validateGraphIntegrity default_validator scenario_C)))
       = [(''graph/missing-nodes'', ''AUT-3311'', at_node ''B'')]
   \<and> adjacencyList (build_graph default_validator scenario_C) = [(''A'', [''B'']), (''B'', [])]
   \<and> reverseAdjacencyList (build_graph default_validator scenario_C)
       = [(''A'', []), (''B'', [''A''])]"
  using missing_nodes_when_enabled [OF enabled_missing_default, of scenario_C]
    enabled_missing_default build_graph_scenario_C_pruned
  by (simp add: dangling_scenario_C node_of_def)

text \<open>
  C5 as stated fails when the rule is disabled: the guard
  \<^verbatim>\<open>!nodeIds.has(targetId) && this.isRuleEnabled('graph/missing-nodes')\<close> is then false,
  no issue is produced for the dangling edge of \<open>B\<close>, and the edge is pushed on the forward
  adjacency list.
\<close>

lemma build_graph_scenario_C_off:
  "graph_issues (build_graph validator_missing_nodes_off scenario_C) = []
   \<and> adjacencyList (build_graph validator_missing_nodes_off scenario_C)
       = [(''A'', [''B'']), (''B'', [''C''])]"
  by (simp add: build_graph_def scenario_C_def node_of_def node_connections_def
      disabled_missing_off initialize_def Map_push_def)

theorem missing_nodes_disabled_counterexample:
  "\<not> (length (filter (\<lambda>i. ruleId i = ''graph/missing-nodes'')
                 (fst (validateGraphIntegrity validator_missing_nodes_off scenario_C)))
        = length (dangling_edges scenario_C)
      \<and> (\<Union>(k, vs) \<in> set (adjacencyList (build_graph validator_missing_nodes_off scenario_C)).
            set vs) \<subseteq> set (map node_id scenario_C))"
  using build_graph_scenario_C_off
  by (simp add: missing_nodes_issues dangling_scenario_C)

subsection \<open>The validation run\<close>

lemma validateWorkflow_try_nodes_present:
  assumes "wf_nodes w = Some nodes"
  shows "\<exists>r. validateWorkflow_try RegExp V w = (Some (TypeError ''nodeIssues is not iterable''), r)
             \<and> run_workflow r = w"
  using assms
  by (simp add: validateWorkflow_try_def spread_promise_def split_beta Let_def)

lemma validateWorkflow_try_nodes_absent:
  assumes "wf_nodes w = None"
  shows "validateWorkflow_try RegExp V w =
    validateWorkflow_steps_4_6 RegExp
      \<lparr>run_issues = fst (validateWorkflowStructure V w),
       run_validator = snd (validateWorkflowStructure V w),
       run_workflow = w, rulesExecuted = 4\<rparr>"
  using assms
  by (simp add: validateWorkflow_try_def split_beta Let_def)

lemma validatePerformance_nodes_absent:
  "wf_nodes w = None \<Longrightarrow> validatePerformance V w = ([], V)"
  by (simp add: validatePerformance_def)

lemma steps_4_6_nodes_absent:
  assumes "wf_nodes (run_workflow r) = None"
  shows "validateWorkflow_steps_4_6 RegExp r =
    (case wf_variables (run_workflow r) of
       None \<Rightarrow> (None, r\<lparr>rulesExecuted := rulesExecuted r + 3\<rparr>)
     | Some variables \<Rightarrow>
        (case validateVariables RegExp (run_validator r) variables of
           (Inl e, V') \<Rightarrow> (Some e, r\<lparr>run_validator := V'\<rparr>)
         | (Inr variableIssues, V') \<Rightarrow>
            (None, r\<lparr>run_issues := run_issues r @ variableIssues, run_validator := V',
                      rulesExecuted := rulesExecuted r + length variables * 2 + 3\<rparr>)))"
  using assms
  by (auto simp: validateWorkflow_steps_4_6_def validatePerformance_nodes_absent Let_def
           split: option.splits prod.splits sum.splits)

lemma steps_4_6_workflow_nodes_absent:
  assumes "wf_nodes (run_workflow r) = None"
  shows "run_workflow (snd (validateWorkflow_steps_4_6 RegExp r)) = run_workflow r"
  by (auto simp: steps_4_6_nodes_absent[OF assms] split: option.splits prod.splits sum.splits)

lemma validateWorkflow_try_workflow: "run_workflow (snd (validateWorkflow_try RegExp V w)) = w"
proof (cases "wf_nodes w")
  case None
  then show ?thesis
    using steps_4_6_workflow_nodes_absent[of "\<lparr>run_issues = fst (validateWorkflowStructure V w),
       run_validator = snd (validateWorkflowStructure V w),
       run_workflow = w, rulesExecuted = 4\<rparr>" RegExp]
    by (simp add: validateWorkflow_try_nodes_absent)
next
  case (Some nodes)
  from validateWorkflow_try_nodes_present[OF this, of RegExp V] show ?thesis by auto
qed

text \<open>The run never writes to the workflow object.\<close>

lemma validateWorkflow_workflow_unchanged: "fst (snd (validateWorkflow RegExp V w)) = w"
  using validateWorkflow_try_workflow[of RegExp V w]
  by (cases "validateWorkflow_try RegExp V w")
     (auto simp: validateWorkflow_def split_beta Let_def split: option.splits)

lemma validateWorkflow_caught:
  assumes "validateWorkflow_try RegExp V w = (Some e, r)"
  shows "\<exists>res V'. validateWorkflow RegExp V w = (Fulfilled res, run_workflow r, V')
     \<and> map ruleId (res_issues res) = [''system/parse-error'']
     \<and> map errorCode (res_issues res) = [''SYS-5510'']
     \<and> map severity (res_issues res) = [SevError]
     \<and> map family (res_issues res) = [SYS]
     \<and> map message (res_issues res) = [''System error: '' @ error_message e]
     \<and> \<not> isValid res
     \<and> summary res = \<lparr>sum_total = 1, sum_errors = 1, sum_warnings = 0, sum_infos = 0,
                        sum_criticals = 0\<rparr>
     \<and> length (res_errors res) = 1"
  using assms by (simp add: validateWorkflow_def createSystemError_def split_beta)

lemma validateWorkflow_nodes_present:
  assumes "wf_nodes w = Some nodes"
  shows "\<exists>res V'. validateWorkflow RegExp V w = (Fulfilled res, w, V')
     \<and> map ruleId (res_issues res) = [''system/parse-error'']
     \<and> map errorCode (res_issues res) = [''SYS-5510'']
     \<and> map message (res_issues res) = [''System error: nodeIssues is not iterable'']
     \<and> \<not> isValid res"
proof -
  from validateWorkflow_try_nodes_present[OF assms, of RegExp V] obtain r where
    r: "validateWorkflow_try RegExp V w = (Some (TypeError ''nodeIssues is not iterable''), r)"
       "run_workflow r = w"
    by blast
  from validateWorkflow_caught[OF r(1)] r(2) show ?thesis by auto
qed


lemma validateWorkflow_fulfilled:
  "\<exists>res w' V'. validateWorkflow RegExp V w = (Fulfilled res, w', V')"
  by (cases "validateWorkflow_try RegExp V w")
     (auto simp: validateWorkflow_def split_beta Let_def split: option.splits)

lemma validateWorkflow_returned:
  assumes "validateWorkflow_try RegExp V w = (None, r)"
    and "validateWorkflow RegExp V w = (Fulfilled res, w', V')"
  shows "res_issues res = filterIssues (run_validator r) (run_issues r)"
    and "isValid res \<longleftrightarrow>
           filter (\<lambda>i. severity i = SevError) (res_issues res) = []
           \<and> filter (\<lambda>i. severity i = SevCritical) (res_issues res) = []"
  using assms by (auto simp: validateWorkflow_def Let_def)

lemma default_enabled:
  "isRuleEnabled default_validator ''schema/required-fields''"
  "isRuleEnabled default_validator ''schema/semver''"
  "isRuleEnabled default_validator ''variable/naming-convention''"
  by (simp_all add: isRuleEnabled_def default_rules get_property_def DEFAULT_rules_def)

lemma semver_1_0_0: "semverPattern_test ''1.0.0''"
  by (simp add: semverPattern_test_def numeric_part_def semver_suffix_def is_digit_def)

lemma default_pattern:
  "setting_variableNamePattern default_validator = ''^[a-zA-Z][a-zA-Z0-9_]*$''"
  by (simp add: setting_variableNamePattern_def setting_naming_def default_validator_def
      new_AutoFlowValidator_def merge_settings_def DEFAULT_settings_def)

lemma counter_ok: "default_variableName_test ''counter''"
  by (simp add: default_variableName_test_def is_letter_def is_digit_def)

lemma structure_plain: "validateWorkflowStructure V workflow_plain = ([], V)"
  by (simp add: validateWorkflowStructure_def requiredFields_def field_missing_def falsy_def
      workflow_plain_def semver_1_0_0)

lemma try_plain:
  "validateWorkflow_try sample_RegExp default_validator workflow_plain =
     (None, \<lparr>run_issues = [], run_validator = default_validator,
             run_workflow = workflow_plain, rulesExecuted = 9\<rparr>)"
proof -
  have n: "wf_nodes workflow_plain = None"
    and v: "wf_variables workflow_plain = Some [variable_of ''counter'']"
    by (simp_all add: workflow_plain_def)
  show ?thesis
    by (simp add: validateWorkflow_try_nodes_absent[OF n] steps_4_6_nodes_absent n v
        structure_plain validateVariables_def default_enabled default_pattern
        sample_RegExp_def variable_of_def counter_ok)
qed

lemma bad_pattern_enabled:
  "isRuleEnabled validator_bad_pattern ''schema/required-fields''"
  "isRuleEnabled validator_bad_pattern ''schema/semver''"
  "isRuleEnabled validator_bad_pattern ''variable/naming-convention''"
  by (simp_all add: isRuleEnabled_def validator_bad_pattern_def new_AutoFlowValidator_def
      AList.merge_def get_property_def DEFAULT_rules_def)

lemma bad_pattern: "setting_variableNamePattern validator_bad_pattern = ''(''"
  by (simp add: setting_variableNamePattern_def setting_naming_def validator_bad_pattern_def
      new_AutoFlowValidator_def merge_settings_def DEFAULT_settings_def)

text \<open>A pattern that does not compile: \<^verbatim>\<open>new RegExp\<close> throws inside the \<^verbatim>\<open>try\<close> block.\<close>

lemma try_bad_pattern:
  "\<exists>r. validateWorkflow_try sample_RegExp validator_bad_pattern workflow_plain =
         (Some (SyntaxError ''Invalid regular expression: /(/''), r)"
proof -
  have n: "wf_nodes workflow_plain = None"
    and v: "wf_variables workflow_plain = Some [variable_of ''counter'']"
    by (simp_all add: workflow_plain_def)
  show ?thesis
    by (simp add: validateWorkflow_try_nodes_absent[OF n] steps_4_6_nodes_absent n v
        structure_plain validateVariables_def bad_pattern_enabled bad_pattern
        sample_RegExp_def)
qed

text \<open>
  C1.  \<^verbatim>\<open>validateWorkflow\<close> always returns a fulfilled promise of a result; whenever the
  \<^verbatim>\<open>try\<close> block throws, the result's issue list is one issue with code \<^verbatim>\<open>SYS-5510\<close>,
  family \<^verbatim>\<open>SYS\<close> and severity \<^verbatim>\<open>error\<close>, \<^verbatim>\<open>isValid\<close> is false, and the summary counts one
  error.
\<close>

theorem validateWorkflow_never_throws:
  "\<exists>res w' V'. validateWorkflow RegExp V w = (Fulfilled res, w', V')
     \<and> (\<forall>e r. validateWorkflow_try RegExp V w = (Some e, r) \<longrightarrow>
           (\<exists>i. res_issues res = [i] \<and> errorCode i = ''SYS-5510'' \<and> severity i = SevError
                \<and> family i = SYS)
           \<and> \<not> isValid res
           \<and> summary res = \<lparr>sum_total = 1, sum_errors = 1, sum_warnings = 0, sum_infos = 0,
                              sum_criticals = 0\<rparr>
           \<and> length (res_errors res) = 1)"
proof (cases "validateWorkflow_try RegExp V w")
  case (Pair eo r)
  show ?thesis
  proof (cases eo)
    case None
    with Pair show ?thesis by (simp add: validateWorkflow_def Let_def)
  next
    case (Some e)
    with Pair show ?thesis
      by (simp add: validateWorkflow_def createSystemError_def split_beta)
  qed
qed


theorem validateWorkflow_never_throws_witness:
  "(\<exists>r. validateWorkflow_try sample_RegExp validator_bad_pattern workflow_plain =
          (Some (SyntaxError ''Invalid regular expression: /(/''), r))
   \<and> (\<exists>res w' V'. validateWorkflow sample_RegExp validator_bad_pattern workflow_plain
                      = (Fulfilled res, w', V')
          \<and> map errorCode (res_issues res) = [''SYS-5510'']
          \<and> map severity (res_issues res) = [SevError]
          \<and> \<not> isValid res)
   \<and> (\<exists>r. validateWorkflow_try sample_RegExp default_validator workflow_A =
          (Some (TypeError ''nodeIssues is not iterable''), r))
   \<and> (\<exists>res w' V'. validateWorkflow sample_RegExp default_validator workflow_A
                      = (Fulfilled res, w', V')
          \<and> map errorCode (res_issues res) = [''SYS-5510'']
          \<and> map severity (res_issues res) = [SevError]
          \<and> \<not> isValid res)"
proof -
  have A: "wf_nodes workflow_A = Some [action_node ''node-1'' ''send_message'']"
    by (simp add: workflow_A_def workflow_of_def)
  from validateWorkflow_try_nodes_present[OF A, of sample_RegExp default_validator]
  have 3: "\<exists>r. validateWorkflow_try sample_RegExp default_validator workflow_A =
          (Some (TypeError ''nodeIssues is not iterable''), r)"
    by blast
  from validateWorkflow_never_throws [of sample_RegExp validator_bad_pattern workflow_plain]
    try_bad_pattern
  have 2: "\<exists>res w' V'. validateWorkflow sample_RegExp validator_bad_pattern workflow_plain
                      = (Fulfilled res, w', V')
          \<and> map errorCode (res_issues res) = [''SYS-5510'']
          \<and> map severity (res_issues res) = [SevError]
          \<and> \<not> isValid res"
    by fastforce
  from validateWorkflow_never_throws [of sample_RegExp default_validator workflow_A] 3
  have 4: "\<exists>res w' V'. validateWorkflow sample_RegExp default_validator workflow_A
                      = (Fulfilled res, w', V')
          \<and> map errorCode (res_issues res) = [''SYS-5510'']
          \<and> map severity (res_issues res) = [SevError]
          \<and> \<not> isValid res"
    by fastforce
  from try_bad_pattern 2 3 4 show ?thesis by blast
qed

lemma setting_pattern_config:
  "config V = config V' \<Longrightarrow> setting_variableNamePattern V = setting_variableNamePattern V'"
  by (simp add: setting_variableNamePattern_def setting_naming_def)

lemma setting_pattern_createIssue [simp]:
  "setting_variableNamePattern (snd (createIssue V r c m l s)) = setting_variableNamePattern V"
  by (rule setting_pattern_config) simp

lemma try_no_version:
  "\<exists>r. validateWorkflow_try sample_RegExp default_validator workflow_no_version = (None, r)
       \<and> map issue_key (filterIssues (run_validator r) (run_issues r))
            = [(''schema/required-fields'', ''SYS-5511'', at_path ''version'')]
       \<and> map severity (filterIssues (run_validator r) (run_issues r)) = [SevError]"
proof -
  have n: "wf_nodes workflow_no_version = None"
    and v: "wf_variables workflow_no_version = Some [variable_of ''counter'']"
    by (simp_all add: workflow_no_version_def workflow_plain_def)
  let ?i = "fst (createIssue default_validator ''schema/required-fields'' C5511
                   (Some (''Required field '' @ quoted ''version'' @ '' is missing''))
                   (at_path ''version'') None)"
  let ?V = "snd (createIssue default_validator ''schema/required-fields'' C5511
                   (Some (''Required field '' @ quoted ''version'' @ '' is missing''))
                   (at_path ''version'') None)"
  have s: "validateWorkflowStructure default_validator workflow_no_version = ([?i], ?V)"
    by (simp add: validateWorkflowStructure_def default_enabled requiredFields_def
        field_missing_def falsy_def workflow_no_version_def workflow_plain_def split_beta)
  show ?thesis
    by (simp add: validateWorkflow_try_nodes_absent[OF n] steps_4_6_nodes_absent n v s
        validateVariables_def default_enabled default_pattern sample_RegExp_def variable_of_def counter_ok
        filterIssues_def issue_key_createIssue)
qed

text \<open>
  C9.  In every result \<^verbatim>\<open>validateWorkflow\<close> returns, \<^verbatim>\<open>isValid\<close> holds exactly when the
  result's issue list has no issue of severity \<^verbatim>\<open>error\<close> and none of severity
  \<^verbatim>\<open>critical\<close>.
\<close>

theorem isValid_iff_no_errors:
  assumes "validateWorkflow RegExp V w = (Fulfilled res, w', V')"
  shows "isValid res \<longleftrightarrow>
          filter (\<lambda>i. severity i = SevError) (res_issues res) = []
          \<and> filter (\<lambda>i. severity i = SevCritical) (res_issues res) = []"
proof (cases "validateWorkflow_try RegExp V w")
  case (Pair eo r)
  show ?thesis
  proof (cases eo)
    case None
    with Pair assms show ?thesis by (auto simp: validateWorkflow_def Let_def)
  next
    case (Some e)
    with Pair assms show ?thesis
      by (auto simp: validateWorkflow_def createSystemError_def split_beta)
  qed
qed

theorem isValid_iff_no_errors_witness:
  "(\<exists>res w' V'. validateWorkflow sample_RegExp default_validator workflow_plain
                    = (Fulfilled res, w', V')
        \<and> res_issues res = [] \<and> isValid res)
   \<and> (\<exists>res w' V'. validateWorkflow sample_RegExp default_validator workflow_no_version
                    = (Fulfilled res, w', V')
        \<and> map issue_key (res_issues res)
             = [(''schema/required-fields'', ''SYS-5511'', at_path ''version'')]
        \<and> map severity (res_issues res) = [SevError] \<and> \<not> isValid res)
   \<and> (\<exists>res w' V'. validateWorkflow sample_RegExp default_validator workflow_A
                    = (Fulfilled res, w', V')
        \<and> map severity (res_issues res) = [SevError] \<and> \<not> isValid res)"
proof -
  obtain res w' V' where
    r: "validateWorkflow sample_RegExp default_validator workflow_plain = (Fulfilled res, w', V')"
    using validateWorkflow_fulfilled by blast
  from validateWorkflow_returned(1)[OF try_plain r] have i: "res_issues res = []"
    by (simp add: filterIssues_def)
  with isValid_iff_no_errors [OF r] have "isValid res" by simp
  with r i have 1: "\<exists>res w' V'. validateWorkflow sample_RegExp default_validator workflow_plain
                    = (Fulfilled res, w', V') \<and> res_issues res = [] \<and> isValid res"
    by blast
  obtain res3 w3 V3 where
    r3: "validateWorkflow sample_RegExp default_validator workflow_no_version
           = (Fulfilled res3, w3, V3)"
    using validateWorkflow_fulfilled by blast
  from try_no_version obtain rn where
    rn: "validateWorkflow_try sample_RegExp default_validator workflow_no_version = (None, rn)"
      "map issue_key (filterIssues (run_validator rn) (run_issues rn))
            = [(''schema/required-fields'', ''SYS-5511'', at_path ''version'')]"
      "map severity (filterIssues (run_validator rn) (run_issues rn)) = [SevError]"
    by auto
  from validateWorkflow_returned(1)[OF rn(1) r3] rn(2,3)
  have i3: "map issue_key (res_issues res3)
             = [(''schema/required-fields'', ''SYS-5511'', at_path ''version'')]"
      "map severity (res_issues res3) = [SevError]"
    by simp_all
  from isValid_iff_no_errors [OF r3] i3(2) have invalid3: "\<not> isValid res3"
    by (cases "res_issues res3") auto
  have 3: "\<exists>res w' V'. validateWorkflow sample_RegExp default_validator workflow_no_version
                    = (Fulfilled res, w', V')
        \<and> map issue_key (res_issues res)
             = [(''schema/required-fields'', ''SYS-5511'', at_path ''version'')]
        \<and> map severity (res_issues res) = [SevError] \<and> \<not> isValid res"
    using r3 i3 invalid3 by (intro exI[of _ res3] exI[of _ w3] exI[of _ V3]) simp
  have A: "wf_nodes workflow_A = Some [action_node ''node-1'' ''send_message'']"
    by (simp add: workflow_A_def workflow_of_def)
  from validateWorkflow_caught validateWorkflow_try_nodes_present[OF A, of sample_RegExp default_validator]
  obtain res2 w2 V2 where
    r2: "validateWorkflow sample_RegExp default_validator workflow_A = (Fulfilled res2, w2, V2)"
      "map severity (res_issues res2) = [SevError]"
    by metis
  from isValid_iff_no_errors [OF r2(1)] r2(2) have invalid: "\<not> isValid res2"
    by (cases "res_issues res2") auto
  have 2: "\<exists>res w' V'. validateWorkflow sample_RegExp default_validator workflow_A
                    = (Fulfilled res, w', V')
        \<and> map severity (res_issues res) = [SevError] \<and> \<not> isValid res"
    using r2 invalid by (intro exI[of _ res2] exI[of _ w2] exI[of _ V2]) simp
  from 1 2 3 show ?thesis by blast
qed

subsection \<open>Rule gating\<close>

lemma config_push_issue [simp]: "config (snd (push_issue acc r c m l s)) = config (snd acc)"
  by (simp add: snd_push_issue)

lemma required_fields_loop_config:
  "config (snd (required_fields_loop w fs acc)) = config (snd acc)"
proof (induction fs arbitrary: acc)
  case Nil
  show ?case by simp
next
  case (Cons f fs)
  obtain xs V where acc: "acc = (xs, V)" by (cases acc)
  show ?case using acc Cons.IH by (simp add: split_beta)
qed

lemma variables_loop_config: "config (snd (variables_loop t vs acc)) = config (snd acc)"
  by (induction vs arbitrary: acc) simp_all

lemma filterIssues_config: "config V = config V' \<Longrightarrow> filterIssues V xs = filterIssues V' xs"
  by (simp add: filterIssues_def isRuleEnabled_config[of V V'])

lemma filterIssues_Nil [simp]: "filterIssues V [] = []"
  by (simp add: filterIssues_def)

lemma structure_issues:
  "fst (validateWorkflowStructure V w) =
    (if \<not> isRuleEnabled V ''schema/required-fields'' then []
     else fst (required_fields_loop w requiredFields ([], V)) @
          (if invalid_version w \<and> isRuleEnabled V ''schema/semver''
           then [semver_issue (snd (required_fields_loop w requiredFields ([], V)))] else []))"
  using isRuleEnabled_config[OF required_fields_loop_config[of w requiredFields "([], V)"], of "''schema/semver''"]
  by (auto simp: validateWorkflowStructure_def invalid_version_def split_beta split: option.splits)

lemma structure_config: "config (snd (validateWorkflowStructure V w)) = config V"
  using required_fields_loop_config[of w requiredFields "([], V)"]
  by (auto simp: validateWorkflowStructure_def split_beta split: option.splits)

lemma validateVariables_config: "config (snd (validateVariables RegExp V vs)) = config V"
  by (auto simp: validateVariables_def split_beta variables_loop_config split: sum.splits)

lemma returned_issues_try:
  "returned_issues RegExp V w =
    (case validateWorkflow_try RegExp V w of
       (None, r) \<Rightarrow> filterIssues (run_validator r) (run_issues r)
     | (Some e, r) \<Rightarrow> [fst (createSystemError (run_validator r) e)])"
  by (simp add: returned_issues_def validateWorkflow_def split_beta Let_def split: option.splits prod.splits)

lemma required_off_enabled:
  "\<not> isRuleEnabled validator_required_off ''schema/required-fields''"
  "isRuleEnabled validator_required_off ''schema/semver''"
  by (simp_all add: isRuleEnabled_def validator_required_off_def new_AutoFlowValidator_def
      AList.merge_def get_property_def DEFAULT_rules_def update_conv')

lemma abc_invalid: "\<not> semverPattern_test ''abc''"
  by (simp add: semverPattern_test_def numeric_part_def)

lemma returned_required_off:
  "returned_issues sample_RegExp validator_required_off workflow_bad_version = []"
proof -
  have n: "wf_nodes workflow_bad_version = None"
    and v: "wf_variables workflow_bad_version = None"
    by (simp_all add: workflow_bad_version_def workflow_plain_def)
  show ?thesis
    by (simp add: returned_issues_try validateWorkflow_try_nodes_absent[OF n]
        steps_4_6_nodes_absent n v validateWorkflowStructure_def required_off_enabled)
qed

lemma structure_required_off:
  "\<not> isRuleEnabled V ''schema/required-fields'' \<Longrightarrow> validateWorkflowStructure V w = ([], V)"
  by (simp add: validateWorkflowStructure_def)

lemma invalid_abc: "invalid_version workflow_bad_version"
  by (simp add: invalid_version_def workflow_bad_version_def abc_invalid)

lemma returned_default_bad_version:
  "map issue_key (returned_issues sample_RegExp default_validator workflow_bad_version)
     = [(''schema/semver'', ''SYS-5511'', at_path ''version'')]"
proof -
  have n: "wf_nodes workflow_bad_version = None"
    and v: "wf_variables workflow_bad_version = None"
    by (simp_all add: workflow_bad_version_def workflow_plain_def)
  have f: "fst (required_fields_loop workflow_bad_version requiredFields ([], default_validator)) = []"
    and s: "snd (required_fields_loop workflow_bad_version requiredFields ([], default_validator))
              = default_validator"
    by (simp_all add: requiredFields_def field_missing_def falsy_def workflow_bad_version_def
        workflow_plain_def)
  have e: "isRuleEnabled (snd (validateWorkflowStructure default_validator workflow_bad_version))
             ''schema/semver''"
    using isRuleEnabled_config[OF structure_config] default_enabled(2) by simp
  show ?thesis
    by (simp add: returned_issues_try validateWorkflow_try_nodes_absent[OF n]
        steps_4_6_nodes_absent n v structure_issues default_enabled invalid_abc f s
        filterIssues_def e issue_key_createIssue)
qed


text \<open>
  C4, at a validator with \<^verbatim>\<open>schema/required-fields\<close> off and every other rule as in the
  default table, on a workflow with all four required fields, no node list, no variables,
  and the version \<^verbatim>\<open>abc\<close>.  The rule \<^verbatim>\<open>schema/semver\<close> is enabled and the version
  fails the SemVer pattern, yet \<^verbatim>\<open>validateWorkflow\<close> returns no issue: the structural
  validator returns before its version check, so the issue is never generated.  The same
  workflow under the default table, where only \<^verbatim>\<open>schema/required-fields\<close> differs,
  gets the \<^verbatim>\<open>schema/semver\<close> issue.
\<close>

theorem semver_issue_lost_with_required_fields_off:
  "isRuleEnabled validator_required_off ''schema/semver''
   \<and> invalid_version workflow_bad_version
   \<and> validateWorkflowStructure validator_required_off workflow_bad_version
        = ([], validator_required_off)
   \<and> returned_issues sample_RegExp validator_required_off workflow_bad_version = []
   \<and> map issue_key (returned_issues sample_RegExp default_validator workflow_bad_version)
        = [(''schema/semver'', ''SYS-5511'', at_path ''version'')]"
  using required_off_enabled invalid_abc returned_required_off returned_default_bad_version
  by (simp add: structure_required_off)


subsection \<open>A run on a workflow with a node list\<close>

lemma required_fields_loop_keeps:
  "set (fst acc) \<subseteq> set (fst (required_fields_loop w fs acc))"
proof (induction fs arbitrary: acc)
  case Nil
  show ?case by simp
next
  case (Cons f fs)
  obtain xs V where acc: "acc = (xs, V)" by (cases acc)
  show ?case
  proof (cases "field_missing w f")
    case True
    from Cons.IH[of "(xs @ [fst (createIssue V ''schema/required-fields'' C5511
                        (Some (''Required field '' @ quoted f @ '' is missing''))
                        (at_path f) None)], snd (createIssue V ''schema/required-fields'' C5511
                        (Some (''Required field '' @ quoted f @ '' is missing''))
                        (at_path f) None))"]
    show ?thesis using True acc by (auto simp: split_beta)
  next
    case False
    with Cons.IH[of "(xs, V)"] acc show ?thesis by simp
  qed
qed

lemma required_fields_loop_reports:
  "f \<in> set fs \<Longrightarrow> field_missing w f \<Longrightarrow>
   \<exists>i \<in> set (fst (required_fields_loop w fs acc)).
      issue_key i = (''schema/required-fields'', ''SYS-5511'', at_path f) \<and> severity i = SevError"
proof (induction fs arbitrary: acc)
  case Nil
  then show ?case by simp
next
  case (Cons g fs)
  obtain xs V where acc: "acc = (xs, V)" by (cases acc)
  let ?i = "fst (createIssue V ''schema/required-fields'' C5511
                        (Some (''Required field '' @ quoted g @ '' is missing''))
                        (at_path g) None)"
  let ?V = "snd (createIssue V ''schema/required-fields'' C5511
                        (Some (''Required field '' @ quoted g @ '' is missing''))
                        (at_path g) None)"
  show ?case
  proof (cases "g = f")
    case True
    have "?i \<in> set (fst (required_fields_loop w fs (xs @ [?i], ?V)))"
      using required_fields_loop_keeps[of "(xs @ [?i], ?V)" w fs] by auto
    moreover have "issue_key ?i = (''schema/required-fields'', ''SYS-5511'', at_path f)
                   \<and> severity ?i = SevError"
      using True by (simp add: issue_key_createIssue)
    ultimately show ?thesis using True Cons.prems(2) acc by (auto simp: split_beta)
  next
    case False
    with Cons.prems have "f \<in> set fs" by simp
    from Cons.IH[OF this Cons.prems(2)] acc show ?thesis
      by (cases "field_missing w g") (auto simp: split_beta)
  qed
qed

text \<open>
  Without a node list the run reaches the filter, and a missing \<^verbatim>\<open>version\<close> is reported
  as Scenario B says, provided the rule is enabled and the run does not throw.
\<close>

lemma missing_version_reported:
  assumes "wf_version w = None" and "wf_nodes w = None"
    and "isRuleEnabled V ''schema/required-fields''"
    and "validateWorkflow_try RegExp V w = (None, r)"
  shows "\<exists>i \<in> set (returned_issues RegExp V w).
           issue_key i = (''schema/required-fields'', ''SYS-5511'', at_path ''version'')
           \<and> severity i = SevError"
proof -
  let ?S = "validateWorkflowStructure V w"
  have miss: "field_missing w ''version''"
    using assms(1) by (simp add: field_missing_def falsy_def)
  from required_fields_loop_reports[OF _ miss, of requiredFields "([], V)"]
  obtain i where i: "i \<in> set (fst (required_fields_loop w requiredFields ([], V)))"
    "issue_key i = (''schema/required-fields'', ''SYS-5511'', at_path ''version'')"
    "severity i = SevError"
    by (auto simp: requiredFields_def)
  then have inS: "i \<in> set (fst ?S)"
    using assms(3) by (simp add: structure_issues)
  have cfg: "config (run_validator r) = config V \<and> set (fst ?S) \<subseteq> set (run_issues r)"
  proof (cases "wf_variables w")
    case None
    with assms(2,4) structure_config[of V w] show ?thesis
      by (auto simp: validateWorkflow_try_nodes_absent steps_4_6_nodes_absent)
  next
    case (Some vs)
    obtain a V' where vv: "validateVariables RegExp (snd ?S) vs = (a, V')"
      by (cases "validateVariables RegExp (snd ?S) vs")
    with validateVariables_config[of RegExp "snd ?S" vs] structure_config[of V w]
    have "config V' = config V" by simp
    with assms(2,4) Some vv show ?thesis
      by (auto simp: validateWorkflow_try_nodes_absent steps_4_6_nodes_absent split: sum.splits)
  qed
  have "returned_issues RegExp V w = filterIssues V (run_issues r)"
    using assms(4) cfg filterIssues_config[of "run_validator r" V]
    by (simp add: returned_issues_try)
  moreover have "i \<in> set (filterIssues V (run_issues r))"
    using inS cfg i(2) assms(3) by (auto simp: filterIssues_def issue_key_def)
  ultimately show ?thesis using i(2,3) by auto
qed


text \<open>
  C2.  The default validator on a workflow with no \<^verbatim>\<open>version\<close> and an empty node list:
  the only issue returned is the \<^verbatim>\<open>SYS-5510\<close> issue of the \<^verbatim>\<open>catch\<close> block, and no
  \<^verbatim>\<open>schema/required-fields\<close> issue, although that rule is enabled.
\<close>

theorem missing_version_with_nodes:
  "wf_version workflow_no_version_nodes = None
   \<and> wf_nodes workflow_no_version_nodes = Some []
   \<and> isRuleEnabled default_validator ''schema/required-fields''
   \<and> (\<exists>res w' V'. validateWorkflow sample_RegExp default_validator workflow_no_version_nodes
                      = (Fulfilled res, w', V')
          \<and> map ruleId (res_issues res) = [''system/parse-error'']
          \<and> map errorCode (res_issues res) = [''SYS-5510'']
          \<and> \<not> isValid res)"
proof -
  have v: "wf_version workflow_no_version_nodes = None"
    and n: "wf_nodes workflow_no_version_nodes = Some []"
    by (simp_all add: workflow_no_version_nodes_def)
  from validateWorkflow_nodes_present[OF n, of sample_RegExp default_validator]
  have "\<exists>res w' V'. validateWorkflow sample_RegExp default_validator workflow_no_version_nodes
                      = (Fulfilled res, w', V')
          \<and> map ruleId (res_issues res) = [''system/parse-error'']
          \<and> map errorCode (res_issues res) = [''SYS-5510'']
          \<and> \<not> isValid res"
    by auto
  with v n default_enabled(1) show ?thesis by simp
qed

lemma permissions_workflow_A:
  "detectAndValidatePermissions default_validator workflow_A =
     (Inr [],
      workflow_A\<lparr>wf_nodes := Some [(action_node ''node-1'' ''send_message'')
                                     \<lparr>node_permissions := Some [''SEND_MESSAGES'', ''VIEW_CHANNEL'']\<rparr>],
                 wf_permissions := Some [''SEND_MESSAGES'', ''VIEW_CHANNEL'']\<rparr>,
      default_validator)"
  by (simp add: detectAndValidatePermissions_def workflow_A_def workflow_of_def action_node_def
      trigger_send_message_def trigger_permissions_def add_mapped_def
      hasTriggerPermissionMapping_def hasActionPermissionMapping_def has_property_def
      action_send_message trigger_send_message_mapping Set_add_all_def Set_add_def
      sort_view_send)


text \<open>
  C3.  The default validator on a workflow with a trigger and one \<^verbatim>\<open>send_message\<close>
  action node: the run leaves the workflow object as it was, without
  \<^verbatim>\<open>workflow.permissions\<close> and without \<^verbatim>\<open>node.permissions\<close>, where
  \<^verbatim>\<open>detectAndValidatePermissions\<close> on the same workflow writes both.
\<close>

theorem permissions_never_written:
  "wf_trigger workflow_A = Some trigger_send_message
   \<and> wf_nodes workflow_A = Some [action_node ''node-1'' ''send_message'']
   \<and> fst (snd (validateWorkflow sample_RegExp default_validator workflow_A)) = workflow_A
   \<and> wf_permissions workflow_A = None
   \<and> node_permissions (action_node ''node-1'' ''send_message'') = None
   \<and> wf_permissions (fst (snd (detectAndValidatePermissions default_validator workflow_A)))
        = Some [''SEND_MESSAGES'', ''VIEW_CHANNEL'']"
  by (simp add: validateWorkflow_workflow_unchanged permissions_workflow_A)
     (simp add: workflow_A_def workflow_of_def action_node_def)

end
